theory Spec2Isabelle
  imports Main "HOL-Library.Word" "HOL-Library.Monad_Syntax"
begin

unbundle bit_operations_syntax

section \<open>Data model of qdbmp.c\<close>

type_synonym byte = "8 word"

text \<open>The status codes of \<^verbatim>\<open>BMP_STATUS\<close>, in the order of the table
  \<^verbatim>\<open>BMP_ERROR_STRING\<close>.\<close>

datatype BMP_STATUS =
    BMP_OK
  | BMP_ERROR
  | BMP_OUT_OF_MEMORY
  | BMP_IO_ERROR
  | BMP_FILE_NOT_FOUND
  | BMP_FILE_NOT_SUPPORTED
  | BMP_FILE_INVALID
  | BMP_INVALID_ARGUMENT
  | BMP_TYPE_MISMATCH

text \<open>\<^verbatim>\<open>struct _BMP_Header\<close>, field by field.\<close>

record BMP_Header =
  Magic :: "16 word"
  FileSize :: "32 word"
  Reserved1 :: "16 word"
  Reserved2 :: "16 word"
  DataOffset :: "32 word"
  HeaderSize :: "32 word"
  Width :: "32 word"
  Height :: "32 word"
  Planes :: "16 word"
  BitsPerPixel :: "16 word"
  CompressionType :: "32 word"
  ImageDataSize :: "32 word"
  HPixelsPerMeter :: "32 word"
  VPixelsPerMeter :: "32 word"
  ColorsUsed :: "32 word"
  ColorsRequired :: "32 word"

text \<open>\<^verbatim>\<open>struct _BMP\<close>. A heap buffer is the list of its bytes; the palette pointer
  is \<open>None\<close> when it is \<^verbatim>\<open>NULL\<close>.\<close>

record BMP =
  Header :: BMP_Header
  Palette :: "byte list option"
  Data :: "byte list"

definition BMP_PALETTE_SIZE :: nat where
  "BMP_PALETTE_SIZE = 256 * 4"

text \<open>The C code indexes its buffers with unchecked pointer arithmetic. An access outside
  the allocated buffer is undefined behaviour in C; the model makes it the outcome
  \<open>Undefined\<close>, so that every theorem about a returned value also says that no access left
  its buffer.\<close>

datatype 'a exec = Undefined | Returns 'a

fun and_then :: "'a exec \<Rightarrow> ('a \<Rightarrow> 'b exec) \<Rightarrow> 'b exec" where
  "and_then Undefined k = Undefined"
| "and_then (Returns v) k = k v"

text \<open>\<^verbatim>\<open>*(buf + i)\<close> as a read and \<^verbatim>\<open>*(buf + i) = v\<close> as a write.\<close>

definition load :: "byte list \<Rightarrow> nat \<Rightarrow> byte exec" where
  "load buf i = (if i < length buf then Returns (buf ! i) else Undefined)"

definition store :: "byte list \<Rightarrow> nat \<Rightarrow> byte \<Rightarrow> byte list exec" where
  "store buf i v = (if i < length buf then Returns (buf[i := v]) else Undefined)"

text \<open>An output argument \<^verbatim>\<open>uint8_t *r\<close> is the content of the cell it points to, or
  \<open>None\<close> for a null pointer. \<^verbatim>\<open>if( r ) *r = *(buf + i);\<close> reads the buffer only when the
  pointer is not null.\<close>

definition load_out :: "byte list \<Rightarrow> nat \<Rightarrow> byte option \<Rightarrow> byte option exec" where
  "load_out buf i out =
     (case out of
        None \<Rightarrow> Returns None
      | Some old \<Rightarrow> and_then (load buf i) (\<lambda>v. Returns (Some v)))"

text \<open>A null buffer pointer has no byte that may be accessed.\<close>

definition bytes_of :: "byte list option \<Rightarrow> byte list" where
  "bytes_of p = (case p of None \<Rightarrow> [] | Some buf \<Rightarrow> buf)"

section \<open>BMP_Create\<close>

text \<open>\<^verbatim>\<open>calloc\<close> is taken to succeed and to return a zero-filled buffer; all arithmetic is
  that of \<^verbatim>\<open>uint32_t\<close>.\<close>

definition BMP_Create :: "32 word \<Rightarrow> 32 word \<Rightarrow> 16 word \<Rightarrow> BMP_STATUS \<times> BMP option" where
  "BMP_Create width height depth =
     (let bytes_per_pixel = (ucast (drop_bit 3 depth) :: 32 word) in
      if height \<le> 0 \<or> width \<le> 0 then (BMP_INVALID_ARGUMENT, None)
      else if depth \<noteq> 8 \<and> depth \<noteq> 24 \<and> depth \<noteq> 32 then (BMP_FILE_NOT_SUPPORTED, None)
      else
        let bytes_per_row0 = width * bytes_per_pixel;
            bytes_per_row = bytes_per_row0 +
               (if bytes_per_row0 mod 4 \<noteq> 0 then 4 - bytes_per_row0 mod 4 else 0);
            size = bytes_per_row * height;
            hdr = \<lparr> Magic = 0x4D42,
                    FileSize = size + 54 + (if depth = 8 then of_nat BMP_PALETTE_SIZE else 0),
                    Reserved1 = 0,
                    Reserved2 = 0,
                    DataOffset = 54 + (if depth = 8 then of_nat BMP_PALETTE_SIZE else 0),
                    HeaderSize = 40,
                    Width = width,
                    Height = height,
                    Planes = 1,
                    BitsPerPixel = depth,
                    CompressionType = 0,
                    ImageDataSize = size,
                    HPixelsPerMeter = 0,
                    VPixelsPerMeter = 0,
                    ColorsUsed = 0,
                    ColorsRequired = 0 \<rparr>
        in (BMP_OK,
            Some \<lparr> Header = hdr,
                   Palette = (if BitsPerPixel hdr = 8
                              then Some (replicate BMP_PALETTE_SIZE 0) else None),
                   Data = replicate (unat (ImageDataSize hdr)) 0 \<rparr>))"

section \<open>Pixel and palette accessors\<close>

text \<open>The byte offset of pixel \<open>(x, y)\<close> inside \<^verbatim>\<open>bmp->Data\<close>, as the four pixel
  accessors compute it: \<^verbatim>\<open>(Height - y - 1) * bytes_per_row + x * bytes_per_pixel\<close> with
  \<^verbatim>\<open>bytes_per_row = ImageDataSize / Height\<close>, in \<^verbatim>\<open>uint32_t\<close>.\<close>

definition pixel_offset :: "BMP_Header \<Rightarrow> 32 word \<Rightarrow> 32 word \<Rightarrow> 8 word \<Rightarrow> nat" where
  "pixel_offset h x y bytes_per_pixel =
     (let bytes_per_row = ImageDataSize h div Height h
      in unat ((Height h - y - 1) * bytes_per_row + x * ucast bytes_per_pixel))"

text \<open>The three conditional stores at the end of \<^verbatim>\<open>BMP_GetPixelRGB\<close> and
  \<^verbatim>\<open>BMP_GetPaletteColor\<close>: colours lie in the buffer in B, G, R order.\<close>

definition fetch_rgb ::
  "byte list \<Rightarrow> nat \<Rightarrow> byte option \<Rightarrow> byte option \<Rightarrow> byte option
     \<Rightarrow> (byte option \<times> byte option \<times> byte option) exec" where
  "fetch_rgb buf p r g b =
     and_then (load_out buf (p + 2) r) (\<lambda>r'.
     and_then (load_out buf (p + 1) g) (\<lambda>g'.
     and_then (load_out buf (p + 0) b) (\<lambda>b'.
       Returns (r', g', b'))))"

definition BMP_GetPixelRGB ::
  "BMP option \<Rightarrow> 32 word \<Rightarrow> 32 word \<Rightarrow> byte option \<Rightarrow> byte option \<Rightarrow> byte option
     \<Rightarrow> (BMP_STATUS \<times> byte option \<times> byte option \<times> byte option) exec" where
  "BMP_GetPixelRGB bmp x y r g b =
     (case bmp of
        None \<Rightarrow> Returns (BMP_INVALID_ARGUMENT, r, g, b)
      | Some bm \<Rightarrow>
          if x \<ge> Width (Header bm) \<or> y \<ge> Height (Header bm)
          then Returns (BMP_INVALID_ARGUMENT, r, g, b)
          else
            let bytes_per_pixel = (ucast (drop_bit 3 (BitsPerPixel (Header bm))) :: 8 word);
                pixel = pixel_offset (Header bm) x y bytes_per_pixel
            in and_then
                 (if BitsPerPixel (Header bm) = 8
                  then and_then (load (Data bm) pixel) (\<lambda>i.
                         fetch_rgb (bytes_of (Palette bm)) (unat i * 4) r g b)
                  else fetch_rgb (Data bm) pixel r g b)
                 (\<lambda>out. Returns (BMP_OK, out)))"

definition BMP_SetPixelRGB ::
  "BMP option \<Rightarrow> 32 word \<Rightarrow> 32 word \<Rightarrow> byte \<Rightarrow> byte \<Rightarrow> byte
     \<Rightarrow> (BMP_STATUS \<times> BMP option) exec" where
  "BMP_SetPixelRGB bmp x y r g b =
     (case bmp of
        None \<Rightarrow> Returns (BMP_INVALID_ARGUMENT, None)
      | Some bm \<Rightarrow>
          if x \<ge> Width (Header bm) \<or> y \<ge> Height (Header bm)
          then Returns (BMP_INVALID_ARGUMENT, Some bm)
          else if BitsPerPixel (Header bm) \<noteq> 24 \<and> BitsPerPixel (Header bm) \<noteq> 32
          then Returns (BMP_TYPE_MISMATCH, Some bm)
          else
            let bytes_per_pixel = (ucast (drop_bit 3 (BitsPerPixel (Header bm))) :: 8 word);
                pixel = pixel_offset (Header bm) x y bytes_per_pixel
            in and_then (store (Data bm) (pixel + 2) r) (\<lambda>d2.
               and_then (store d2 (pixel + 1) g) (\<lambda>d1.
               and_then (store d1 (pixel + 0) b) (\<lambda>d0.
                 Returns (BMP_OK, Some (bm\<lparr>Data := d0\<rparr>))))))"

definition BMP_GetPixelIndex ::
  "BMP option \<Rightarrow> 32 word \<Rightarrow> 32 word \<Rightarrow> byte option \<Rightarrow> (BMP_STATUS \<times> byte option) exec" where
  "BMP_GetPixelIndex bmp x y val =
     (case bmp of
        None \<Rightarrow> Returns (BMP_INVALID_ARGUMENT, val)
      | Some bm \<Rightarrow>
          if x \<ge> Width (Header bm) \<or> y \<ge> Height (Header bm)
          then Returns (BMP_INVALID_ARGUMENT, val)
          else if BitsPerPixel (Header bm) \<noteq> 8
          then Returns (BMP_TYPE_MISMATCH, val)
          else
            let pixel = pixel_offset (Header bm) x y 1
            in and_then (load_out (Data bm) pixel val) (\<lambda>val'. Returns (BMP_OK, val')))"

definition BMP_SetPixelIndex ::
  "BMP option \<Rightarrow> 32 word \<Rightarrow> 32 word \<Rightarrow> byte \<Rightarrow> (BMP_STATUS \<times> BMP option) exec" where
  "BMP_SetPixelIndex bmp x y val =
     (case bmp of
        None \<Rightarrow> Returns (BMP_INVALID_ARGUMENT, None)
      | Some bm \<Rightarrow>
          if x \<ge> Width (Header bm) \<or> y \<ge> Height (Header bm)
          then Returns (BMP_INVALID_ARGUMENT, Some bm)
          else if BitsPerPixel (Header bm) \<noteq> 8
          then Returns (BMP_TYPE_MISMATCH, Some bm)
          else
            let pixel = pixel_offset (Header bm) x y 1
            in and_then (store (Data bm) pixel val) (\<lambda>d.
                 Returns (BMP_OK, Some (bm\<lparr>Data := d\<rparr>))))"

definition BMP_GetPaletteColor ::
  "BMP option \<Rightarrow> byte \<Rightarrow> byte option \<Rightarrow> byte option \<Rightarrow> byte option
     \<Rightarrow> (BMP_STATUS \<times> byte option \<times> byte option \<times> byte option) exec" where
  "BMP_GetPaletteColor bmp index r g b =
     (case bmp of
        None \<Rightarrow> Returns (BMP_INVALID_ARGUMENT, r, g, b)
      | Some bm \<Rightarrow>
          if BitsPerPixel (Header bm) \<noteq> 8
          then Returns (BMP_TYPE_MISMATCH, r, g, b)
          else and_then (fetch_rgb (bytes_of (Palette bm)) (unat index * 4) r g b)
                 (\<lambda>out. Returns (BMP_OK, out)))"

definition BMP_SetPaletteColor ::
  "BMP option \<Rightarrow> byte \<Rightarrow> byte \<Rightarrow> byte \<Rightarrow> byte \<Rightarrow> (BMP_STATUS \<times> BMP option) exec" where
  "BMP_SetPaletteColor bmp index r g b =
     (case bmp of
        None \<Rightarrow> Returns (BMP_INVALID_ARGUMENT, None)
      | Some bm \<Rightarrow>
          if BitsPerPixel (Header bm) \<noteq> 8
          then Returns (BMP_TYPE_MISMATCH, Some bm)
          else
            and_then (store (bytes_of (Palette bm)) (unat index * 4 + 2) r) (\<lambda>p2.
            and_then (store p2 (unat index * 4 + 1) g) (\<lambda>p1.
            and_then (store p1 (unat index * 4 + 0) b) (\<lambda>p0.
              Returns (BMP_OK, Some (bm\<lparr>Palette := Some p0\<rparr>))))))"

section \<open>Files\<close>

text \<open>A file opened for reading is the list of the bytes not yet read. \<^verbatim>\<open>fread\<close> delivers
  as many of the requested bytes as the file still has.\<close>

definition fread_bytes :: "nat \<Rightarrow> byte list \<Rightarrow> byte list \<times> byte list" where
  "fread_bytes n f = (take n f, drop n f)"

text \<open>\<^verbatim>\<open>fread( buf + i, sizeof(uint8_t), n, f )\<close> into a heap buffer: the number of bytes
  read, the buffer and the file afterwards. The bytes delivered must fit into the buffer.\<close>

definition fread_buf ::
  "byte list \<Rightarrow> nat \<Rightarrow> nat \<Rightarrow> byte list \<Rightarrow> (nat \<times> byte list \<times> byte list) exec" where
  "fread_buf buf i n f =
     (let (bs, f') = fread_bytes n f
      in if i + length bs \<le> length buf
         then Returns (length bs, take i buf @ bs @ drop (i + length bs) buf, f')
         else Undefined)"

text \<open>A file opened for writing: the bytes written so far, and how many more bytes the
  device takes (\<open>None\<close>: any number). \<^verbatim>\<open>fwrite\<close> writes as many of the bytes as the device
  takes.\<close>

record sink =
  written :: "byte list"
  room :: "nat option"

definition accepts :: "sink \<Rightarrow> nat \<Rightarrow> nat" where
  "accepts f n = (case room f of None \<Rightarrow> n | Some c \<Rightarrow> min n c)"

definition fwrite_bytes :: "byte list \<Rightarrow> sink \<Rightarrow> nat \<times> sink" where
  "fwrite_bytes bs f =
     (let k = accepts f (length bs)
      in (k, \<lparr> written = written f @ take k bs,
               room = map_option (\<lambda>c. c - k) (room f) \<rparr>))"

text \<open>\<^verbatim>\<open>fwrite( buf + i, sizeof(uint8_t), n, f )\<close> from a heap buffer: the bytes written
  must lie inside the buffer.\<close>

definition fwrite_buf :: "byte list \<Rightarrow> nat \<Rightarrow> nat \<Rightarrow> sink \<Rightarrow> (nat \<times> sink) exec" where
  "fwrite_buf buf i n f =
     (let k = accepts f n
      in if i + k \<le> length buf
         then Returns (fwrite_bytes (take k (drop i buf)) f)
         else Undefined)"

text \<open>\<^verbatim>\<open>malloc\<close> is taken to succeed; the content of the new buffer is indeterminate, given
  by a parameter \<open>junk\<close>.\<close>

definition malloc :: "(nat \<Rightarrow> byte) \<Rightarrow> nat \<Rightarrow> byte list" where
  "malloc junk n = map junk [0..<n]"

section \<open>Little-endian integers\<close>

text \<open>\<^verbatim>\<open>fread( little, 4, 1, f ) != 1\<close> fails unless all four bytes arrive. The value is
  assembled as \<^verbatim>\<open>little[3] << 24 | little[2] << 16 | little[1] << 8 | little[0]\<close>.\<close>

definition Readuint32_t :: "byte list \<Rightarrow> (32 word \<times> byte list) option" where
  "Readuint32_t f =
     (let (little, f') = fread_bytes 4 f
      in if length little div 4 \<noteq> 1 then None
         else Some (push_bit 24 (ucast (little ! 3)) OR push_bit 16 (ucast (little ! 2))
                      OR push_bit 8 (ucast (little ! 1)) OR ucast (little ! 0), f'))"

definition Readuint16_t :: "byte list \<Rightarrow> (16 word \<times> byte list) option" where
  "Readuint16_t f =
     (let (little, f') = fread_bytes 2 f
      in if length little div 2 \<noteq> 1 then None
         else Some (push_bit 8 (ucast (little ! 1)) OR ucast (little ! 0), f'))"

definition Writeuint32_t :: "32 word \<Rightarrow> sink \<Rightarrow> bool \<times> sink" where
  "Writeuint32_t x f =
     (let little = [ucast (drop_bit 0 (x AND 0x000000ff)) :: byte,
                    ucast (drop_bit 8 (x AND 0x0000ff00)),
                    ucast (drop_bit 16 (x AND 0x00ff0000)),
                    ucast (drop_bit 24 (x AND 0xff000000))];
          (k, f') = fwrite_bytes little f
      in (k div 4 = 1, f'))"

definition Writeuint16_t :: "16 word \<Rightarrow> sink \<Rightarrow> bool \<times> sink" where
  "Writeuint16_t x f =
     (let little = [ucast (drop_bit 0 (x AND 0x00ff)) :: byte,
                    ucast (drop_bit 8 (x AND 0xff00))];
          (k, f') = fwrite_bytes little f
      in (k div 2 = 1, f'))"

section \<open>The header\<close>

text \<open>\<^verbatim>\<open>ReadHeader\<close>: sixteen reads in the order of the fields; \<open>None\<close> stands for the
  return value \<^verbatim>\<open>BMP_IO_ERROR\<close> of the first read that fails.\<close>

definition ReadHeader :: "byte list \<Rightarrow> (BMP_Header \<times> byte list) option" where
  "ReadHeader f0 = do {
     (magic, f1) \<leftarrow> Readuint16_t f0;
     (file_size, f2) \<leftarrow> Readuint32_t f1;
     (reserved1, f3) \<leftarrow> Readuint16_t f2;
     (reserved2, f4) \<leftarrow> Readuint16_t f3;
     (data_offset, f5) \<leftarrow> Readuint32_t f4;
     (header_size, f6) \<leftarrow> Readuint32_t f5;
     (width, f7) \<leftarrow> Readuint32_t f6;
     (height, f8) \<leftarrow> Readuint32_t f7;
     (planes, f9) \<leftarrow> Readuint16_t f8;
     (bits_per_pixel, f10) \<leftarrow> Readuint16_t f9;
     (compression_type, f11) \<leftarrow> Readuint32_t f10;
     (image_data_size, f12) \<leftarrow> Readuint32_t f11;
     (h_pixels_per_meter, f13) \<leftarrow> Readuint32_t f12;
     (v_pixels_per_meter, f14) \<leftarrow> Readuint32_t f13;
     (colors_used, f15) \<leftarrow> Readuint32_t f14;
     (colors_required, f16) \<leftarrow> Readuint32_t f15;
     Some (\<lparr> Magic = magic, FileSize = file_size, Reserved1 = reserved1,
             Reserved2 = reserved2, DataOffset = data_offset, HeaderSize = header_size,
             Width = width, Height = height, Planes = planes,
             BitsPerPixel = bits_per_pixel, CompressionType = compression_type,
             ImageDataSize = image_data_size, HPixelsPerMeter = h_pixels_per_meter,
             VPixelsPerMeter = v_pixels_per_meter, ColorsUsed = colors_used,
             ColorsRequired = colors_required \<rparr>, f16)
   }"

text \<open>\<^verbatim>\<open>if( !Writeuint32_t( x, f ) ) return BMP_IO_ERROR;\<close> followed by the rest of
  \<^verbatim>\<open>WriteHeader\<close>.\<close>

definition or_io_error ::
  "(sink \<Rightarrow> bool \<times> sink) \<Rightarrow> (sink \<Rightarrow> BMP_STATUS \<times> sink) \<Rightarrow> sink \<Rightarrow> BMP_STATUS \<times> sink" where
  "or_io_error w rest f = (case w f of (ok, f') \<Rightarrow> if ok then rest f' else (BMP_IO_ERROR, f'))"

definition WriteHeader :: "BMP option \<Rightarrow> sink \<Rightarrow> BMP_STATUS \<times> sink" where
  "WriteHeader bmp f =
     (case bmp of
        None \<Rightarrow> (BMP_INVALID_ARGUMENT, f)
      | Some bm \<Rightarrow>
         (let h = Header bm in
          or_io_error (Writeuint16_t (Magic h)) (
          or_io_error (Writeuint32_t (FileSize h)) (
          or_io_error (Writeuint16_t (Reserved1 h)) (
          or_io_error (Writeuint16_t (Reserved2 h)) (
          or_io_error (Writeuint32_t (DataOffset h)) (
          or_io_error (Writeuint32_t (HeaderSize h)) (
          or_io_error (Writeuint32_t (Width h)) (
          or_io_error (Writeuint32_t (Height h)) (
          or_io_error (Writeuint16_t (Planes h)) (
          or_io_error (Writeuint16_t (BitsPerPixel h)) (
          or_io_error (Writeuint32_t (CompressionType h)) (
          or_io_error (Writeuint32_t (ImageDataSize h)) (
          or_io_error (Writeuint32_t (HPixelsPerMeter h)) (
          or_io_error (Writeuint32_t (VPixelsPerMeter h)) (
          or_io_error (Writeuint32_t (ColorsUsed h)) (
          or_io_error (Writeuint32_t (ColorsRequired h)) (
          \<lambda>f'. (BMP_OK, f'))))))))))))))))) f))"

section \<open>BMP_ReadFile\<close>

text \<open>The row loop of \<^verbatim>\<open>BMP_ReadFile\<close>:
  \<^verbatim>\<open>for( int idx = (Height - 1) * Width; idx >= 0; idx -= Width )\<close>. The counter is an
  \<^verbatim>\<open>int\<close> holding the 32-bit pattern computed in \<^verbatim>\<open>uint32_t\<close>; the loop test reads it as
  signed. The result of the read of the padding bytes is discarded. The loop need not
  terminate (\<open>Width = 0\<close>), so it is a partial function: \<open>None\<close> is a run that never
  returns.\<close>

partial_function (option) read_rows ::
  "32 word \<Rightarrow> 32 word \<Rightarrow> byte list \<Rightarrow> byte list \<Rightarrow> (BMP_STATUS \<times> byte list) exec option" where
  "read_rows width idx data f =
     (if 0 \<le> sint idx then
        (case fread_buf data (unat idx) (unat width) f of
           Undefined \<Rightarrow> Some Undefined
         | Returns (n, data1, f1) \<Rightarrow>
             if n \<noteq> unat width then Some (Returns (BMP_FILE_INVALID, data1))
             else read_rows width (idx - width) data1
                    (if 0 \<noteq> width mod 4
                     then snd (fread_bytes (unat (4 - width mod 4)) f1)
                     else f1))
      else Some (Returns (BMP_OK, data)))"

declare read_rows.simps [code]

text \<open>\<^verbatim>\<open>BMP_ReadFile\<close>. \<open>fopen_rb\<close> gives the content of the file of a name, if it can be
  opened; the file name is \<open>None\<close> for a null pointer. The result is the value of
  \<^verbatim>\<open>BMP_LAST_ERROR_CODE\<close> and the pointer returned (\<open>None\<close> for \<^verbatim>\<open>NULL\<close>).\<close>

definition BMP_ReadFile ::
  "(string \<Rightarrow> byte list option) \<Rightarrow> (nat \<Rightarrow> byte) \<Rightarrow> string option
     \<Rightarrow> (BMP_STATUS \<times> BMP option) exec option" where
  "BMP_ReadFile fopen_rb junk filename =
     (case filename of
        None \<Rightarrow> Some (Returns (BMP_INVALID_ARGUMENT, None))
      | Some name \<Rightarrow>
     (case fopen_rb name of
        None \<Rightarrow> Some (Returns (BMP_FILE_NOT_FOUND, None))
      | Some f \<Rightarrow>
     (case ReadHeader f of
        None \<Rightarrow> Some (Returns (BMP_FILE_INVALID, None))
      | Some (h, f1) \<Rightarrow>
          if Magic h \<noteq> 0x4D42 then Some (Returns (BMP_FILE_INVALID, None))
          else if (BitsPerPixel h \<noteq> 32 \<and> BitsPerPixel h \<noteq> 24 \<and> BitsPerPixel h \<noteq> 8)
                  \<or> CompressionType h \<noteq> 0 \<or> HeaderSize h \<noteq> 40
          then Some (Returns (BMP_FILE_NOT_SUPPORTED, None))
          else
            (case (if BitsPerPixel h = 8
                   then and_then (fread_buf (malloc junk BMP_PALETTE_SIZE) 0 BMP_PALETTE_SIZE f1)
                          (\<lambda>(n, pal, f2). Returns (n = BMP_PALETTE_SIZE, Some pal, f2))
                   else Returns (True, None, f1)) of
               Undefined \<Rightarrow> Some Undefined
             | Returns (ok, palette, f2) \<Rightarrow>
                 if \<not> ok then Some (Returns (BMP_FILE_INVALID, None))
                 else
                   (case read_rows (Width h) ((Height h - 1) * Width h)
                           (malloc junk (unat (ImageDataSize h))) f2 of
                      None \<Rightarrow> None
                    | Some Undefined \<Rightarrow> Some Undefined
                    | Some (Returns (status, data)) \<Rightarrow>
                        if status \<noteq> BMP_OK then Some (Returns (status, None))
                        else Some (Returns (BMP_OK,
                               Some \<lparr> Header = h, Palette = palette, Data = data \<rparr>)))))))"

section \<open>BMP_WriteFile\<close>

text \<open>The row loop of \<^verbatim>\<open>BMP_WriteFile\<close>. The number of bytes \<^verbatim>\<open>fwrite\<close> reports for a row
  is compared with \<^verbatim>\<open>bmp->Header.ImageDataSize\<close>; the result of writing the padding is not
  looked at.\<close>

partial_function (option) write_rows ::
  "32 word \<Rightarrow> 32 word \<Rightarrow> 32 word \<Rightarrow> byte list \<Rightarrow> sink \<Rightarrow> (BMP_STATUS \<times> sink) exec option" where
  "write_rows width image_data_size idx data f =
     (if 0 \<le> sint idx then
        (case fwrite_buf data (unat idx) (unat width) f of
           Undefined \<Rightarrow> Some Undefined
         | Returns (n, f1) \<Rightarrow>
             if n \<noteq> unat image_data_size then Some (Returns (BMP_IO_ERROR, f1))
             else write_rows width image_data_size (idx - width) data
                    (if 0 \<noteq> width mod 4
                     then snd (fwrite_bytes (take (unat (4 - width mod 4)) [0, 0, 0, 0]) f1)
                     else f1))
      else Some (Returns (BMP_OK, f)))"

declare write_rows.simps [code]

text \<open>\<^verbatim>\<open>BMP_WriteFile\<close>. \<open>fopen_wb\<close> gives the new file of a name, if it can be opened.
  The result is the value of \<^verbatim>\<open>BMP_LAST_ERROR_CODE\<close> and the file as it was left, if one was
  opened.\<close>

definition BMP_WriteFile ::
  "(string \<Rightarrow> sink option) \<Rightarrow> BMP option \<Rightarrow> string option
     \<Rightarrow> (BMP_STATUS \<times> sink option) exec option" where
  "BMP_WriteFile fopen_wb bmp filename =
     (case filename of
        None \<Rightarrow> Some (Returns (BMP_INVALID_ARGUMENT, None))
      | Some name \<Rightarrow>
     (case fopen_wb name of
        None \<Rightarrow> Some (Returns (BMP_FILE_NOT_FOUND, None))
      | Some f \<Rightarrow>
     (case WriteHeader bmp f of (status, f1) \<Rightarrow>
        if status \<noteq> BMP_OK then Some (Returns (BMP_IO_ERROR, Some f1))
        else
          (case bmp of
             None \<Rightarrow> Some Undefined
           | Some bm \<Rightarrow>
              (case (case Palette bm of
                       None \<Rightarrow> Returns (True, f1)
                     | Some pal \<Rightarrow>
                         and_then (fwrite_buf pal 0 BMP_PALETTE_SIZE f1)
                           (\<lambda>(n, f2). Returns (n = BMP_PALETTE_SIZE, f2))) of
                 Undefined \<Rightarrow> Some Undefined
               | Returns (ok, f2) \<Rightarrow>
                   if \<not> ok then Some (Returns (BMP_IO_ERROR, Some f2))
                   else
                     (case write_rows (Width (Header bm)) (ImageDataSize (Header bm))
                             ((Height (Header bm) - 1) * Width (Header bm)) (Data bm) f2 of
                        None \<Rightarrow> None
                      | Some Undefined \<Rightarrow> Some Undefined
                      | Some (Returns (status, f3)) \<Rightarrow> Some (Returns (status, Some f3))))))))"

section \<open>Quantities of the specification and sample environments\<close>

text \<open>The row stride as the specification words it:
  \<open>RowStride = ceil(Width * BytesPerPixel / 4) * 4\<close>, over the natural numbers.\<close>

definition RowStride_spec :: "nat \<Rightarrow> nat \<Rightarrow> nat" where
  "RowStride_spec width bytes_per_pixel = (width * bytes_per_pixel + 3) div 4 * 4"

text \<open>The number of padding bytes that the row loops of \<^verbatim>\<open>BMP_ReadFile\<close> and
  \<^verbatim>\<open>BMP_WriteFile\<close> ask for after a row:
  \<^verbatim>\<open>sizeof( uint32_t ) - ( Width % sizeof( uint32_t ) )\<close> when \<^verbatim>\<open>Width\<close> is not a multiple of 4.\<close>

definition row_padding :: "32 word \<Rightarrow> nat" where
  "row_padding width = (if 0 \<noteq> width mod 4 then unat (4 - width mod 4) else 0)"

text \<open>The invariants that the specification states for a bitmap, as a predicate on the
  C object: the header fields, the size of the pixel buffer, and a palette of
  \<^verbatim>\<open>BMP_PALETTE_SIZE\<close> bytes exactly for depth 8.\<close>

definition valid_bitmap :: "BMP \<Rightarrow> bool" where
  "valid_bitmap bm =
     (let h = Header bm in
      HeaderSize h = 40 \<and> CompressionType h = 0 \<and>
      (BitsPerPixel h = 8 \<or> BitsPerPixel h = 24 \<or> BitsPerPixel h = 32) \<and>
      Width h \<noteq> 0 \<and> Height h \<noteq> 0 \<and>
      unat (DataOffset h) = 54 + (if BitsPerPixel h = 8 then 1024 else 0) \<and>
      unat (ImageDataSize h)
        = RowStride_spec (unat (Width h)) (unat (BitsPerPixel h) div 8) * unat (Height h) \<and>
      length (Data bm) = unat (ImageDataSize h) \<and>
      (case Palette bm of
         None \<Rightarrow> BitsPerPixel h \<noteq> 8
       | Some pal \<Rightarrow> BitsPerPixel h = 8 \<and> length pal = BMP_PALETTE_SIZE))"

text \<open>Environments for concrete runs: a file system in which every name opens the given
  file, a fresh output file on a device that takes every byte, and a heap whose new
  buffers hold the byte \<open>0xAA\<close>.\<close>

definition one_file :: "byte list \<Rightarrow> string \<Rightarrow> byte list option" where
  "one_file content name = Some content"

definition fresh_file :: "string \<Rightarrow> sink option" where
  "fresh_file name = Some \<lparr> written = [], room = None \<rparr>"

definition stale :: "nat \<Rightarrow> byte" where
  "stale i = 0xAA"

text \<open>The 54 bytes of a header with the magic \<open>BM\<close>, header size 40, one plane, no
  compression and the given width, height, depth and image data size (each below 256),
  and the header that \<^verbatim>\<open>ReadHeader\<close> makes of them.\<close>

definition sample_header_bytes :: "byte \<Rightarrow> byte \<Rightarrow> byte \<Rightarrow> byte \<Rightarrow> byte list" where
  "sample_header_bytes w h depth sz =
     [0x42, 0x4D, 0, 0, 0, 0, 0, 0, 0, 0, 54, 0, 0, 0, 40, 0, 0, 0, w, 0, 0, 0, h, 0, 0, 0,
      1, 0, depth, 0, 0, 0, 0, 0, sz, 0, 0, 0, 0, 0, 0, 0, 0, 0, 0, 0, 0, 0, 0, 0, 0, 0, 0, 0]"

definition sample_header :: "byte \<Rightarrow> byte \<Rightarrow> byte \<Rightarrow> byte \<Rightarrow> BMP_Header" where
  "sample_header w h depth sz =
     \<lparr> Magic = 0x4D42, FileSize = 0, Reserved1 = 0, Reserved2 = 0, DataOffset = 54,
       HeaderSize = 40, Width = ucast w, Height = ucast h, Planes = 1,
       BitsPerPixel = ucast depth, CompressionType = 0, ImageDataSize = ucast sz,
       HPixelsPerMeter = 0, VPixelsPerMeter = 0, ColorsUsed = 0, ColorsRequired = 0 \<rparr>"

section \<open>Facts about the buffers\<close>

lemma fetch_rgb_inside:
  "p + 2 < length buf \<Longrightarrow>
   fetch_rgb buf p r g b =
     Returns (map_option (\<lambda>_. buf ! (p + 2)) r, map_option (\<lambda>_. buf ! (p + 1)) g,
              map_option (\<lambda>_. buf ! p) b)"
  by (simp add: fetch_rgb_def load_out_def load_def split: option.splits)

lemma palette_slot: "unat (i :: byte) * 4 + 3 < 1024"
  using unsigned_less [of i, where 'a = nat] by simp

section \<open>BMP_Create and the header formulas\<close>

text \<open>Rounding up to a multiple of 4 as the code does it, in \<^verbatim>\<open>uint32_t\<close>, against the
  rounding of the specification.\<close>

lemma round_up_nat: "(n::nat) + (if n mod 4 \<noteq> 0 then 4 - n mod 4 else 0) = (n + 3) div 4 * 4"
  by presburger

lemma round_up_word:
  fixes x :: "32 word"
  shows "unat (x + (if x mod 4 \<noteq> 0 then 4 - x mod 4 else 0)) = ((unat x + 3) div 4 * 4) mod 2 ^ 32"
proof -
  have m: "unat (x mod 4) = unat x mod 4" by (simp add: unat_mod)
  have z: "x mod 4 \<noteq> 0 \<longleftrightarrow> unat x mod 4 \<noteq> 0"
    using m by (metis unat_eq_0)
  have le: "x mod 4 \<le> 4"
    by (simp add: word_le_nat_alt m)
  have s: "unat (4 - x mod 4) = 4 - unat x mod 4"
    using le by (simp add: unat_sub m)
  have "unat (x + (if x mod 4 \<noteq> 0 then 4 - x mod 4 else 0))
      = (unat x + (if unat x mod 4 \<noteq> 0 then 4 - unat x mod 4 else 0)) mod 2 ^ 32"
    by (simp add: unat_word_ariths z s)
  then show ?thesis by (simp only: round_up_nat)
qed

lemma round_up_mod: "((n mod 2 ^ 32 + 3) div 4 * 4) mod 2 ^ 32 = ((n + 3) div 4 * 4) mod (2 ^ 32 :: nat)"
proof -
  define q r where "q = n div 2 ^ 32" and "r = n mod 2 ^ 32"
  have n: "n = r + 3 - 3 + (q * 2 ^ 30) * 4" by (simp add: q_def r_def)
  have k: "(r + 3 + k * 4) div 4 = (r + 3) div 4 + k" for k
    by simp
  have "(n + 3) div 4 = (r + 3 + (q * 2 ^ 30) * 4) div 4"
    by (subst n) simp
  then have "(n + 3) div 4 = (r + 3) div 4 + q * 2 ^ 30"
    by (simp only: k)
  then have "(n + 3) div 4 * 4 = (r + 3) div 4 * 4 + q * 2 ^ 32"
    by (simp add: algebra_simps)
  then show ?thesis by (simp add: r_def)
qed

lemma image_size_unat:
  fixes w b h :: "32 word"
  shows "unat ((w * b + (if (w * b) mod 4 \<noteq> 0 then 4 - (w * b) mod 4 else 0)) * h)
           = (RowStride_spec (unat w) (unat b) * unat h) mod 2 ^ 32"
proof -
  have "unat (w * b + (if (w * b) mod 4 \<noteq> 0 then 4 - (w * b) mod 4 else 0))
      = (((unat w * unat b) mod 2 ^ 32 + 3) div 4 * 4) mod 2 ^ 32"
    by (simp only: round_up_word) (simp add: unat_word_ariths)
  also have "\<dots> = RowStride_spec (unat w) (unat b) mod 2 ^ 32"
    by (simp only: round_up_mod RowStride_spec_def)
  finally have r: "unat (w * b + (if (w * b) mod 4 \<noteq> 0 then 4 - (w * b) mod 4 else 0))
      = RowStride_spec (unat w) (unat b) mod 2 ^ 32" .
  have "unat ((w * b + (if (w * b) mod 4 \<noteq> 0 then 4 - (w * b) mod 4 else 0)) * h)
      = (unat (w * b + (if (w * b) mod 4 \<noteq> 0 then 4 - (w * b) mod 4 else 0)) * unat h) mod 2 ^ 32"
    by (simp add: unat_word_ariths)
  also have "\<dots> = (RowStride_spec (unat w) (unat b) mod 2 ^ 32 * unat h) mod 2 ^ 32"
    by (simp only: r)
  also have "\<dots> = (RowStride_spec (unat w) (unat b) * unat h) mod 2 ^ 32"
    by (rule mod_mult_left_eq)
  finally show ?thesis .
qed

text \<open>Claim C5, as amended. \<^verbatim>\<open>BMP_Create\<close> reports \<^verbatim>\<open>BMP_INVALID_ARGUMENT\<close> when width or
  height is 0 and \<^verbatim>\<open>BMP_FILE_NOT_SUPPORTED\<close> when the depth is not 8, 24 or 32. Otherwise it
  returns a bitmap with the given width, height and depth, with
  \<open>ImageDataSize = RowStride * height\<close> and \<open>FileSize = DataOffset + ImageDataSize\<close> computed
  in 32-bit unsigned arithmetic, that is modulo \<open>2\<^sup>3\<^sup>2\<close>, where
  \<open>RowStride = ceil(width * BytesPerPixel / 4) * 4\<close>; the two fields hold the exact values
  whenever \<open>54 + 1024 + RowStride * height < 2\<^sup>3\<^sup>2\<close>. \<open>DataOffset\<close> is 54, plus 1024 when the
  depth is 8; the other fields have their defaults; the pixel buffer has \<open>ImageDataSize\<close>
  zero bytes; the palette has 1024 zero bytes exactly when the depth is 8.\<close>

theorem BMP_Create_result:
  "(width = 0 \<or> height = 0 \<longrightarrow>
      BMP_Create width height depth = (BMP_INVALID_ARGUMENT, None)) \<and>
   (width \<noteq> 0 \<and> height \<noteq> 0 \<and> depth \<noteq> 8 \<and> depth \<noteq> 24 \<and> depth \<noteq> 32 \<longrightarrow>
      BMP_Create width height depth = (BMP_FILE_NOT_SUPPORTED, None)) \<and>
   (width \<noteq> 0 \<and> height \<noteq> 0 \<and> (depth = 8 \<or> depth = 24 \<or> depth = 32) \<longrightarrow>
      (\<exists>bm. BMP_Create width height depth = (BMP_OK, Some bm) \<and>
         Width (Header bm) = width \<and> Height (Header bm) = height \<and>
         BitsPerPixel (Header bm) = depth \<and>
         unat (ImageDataSize (Header bm))
           = (RowStride_spec (unat width) (unat depth div 8) * unat height) mod 2 ^ 32 \<and>
         unat (DataOffset (Header bm)) = 54 + (if depth = 8 then 1024 else 0) \<and>
         unat (FileSize (Header bm))
           = (unat (DataOffset (Header bm))
               + RowStride_spec (unat width) (unat depth div 8) * unat height) mod 2 ^ 32 \<and>
         (54 + 1024 + RowStride_spec (unat width) (unat depth div 8) * unat height < 2 ^ 32 \<longrightarrow>
            unat (ImageDataSize (Header bm))
              = RowStride_spec (unat width) (unat depth div 8) * unat height \<and>
            unat (FileSize (Header bm))
              = unat (DataOffset (Header bm)) + unat (ImageDataSize (Header bm))) \<and>
         Magic (Header bm) = 0x4D42 \<and> Reserved1 (Header bm) = 0 \<and> Reserved2 (Header bm) = 0 \<and>
         HeaderSize (Header bm) = 40 \<and> Planes (Header bm) = 1 \<and>
         CompressionType (Header bm) = 0 \<and>
         HPixelsPerMeter (Header bm) = 0 \<and> VPixelsPerMeter (Header bm) = 0 \<and>
         ColorsUsed (Header bm) = 0 \<and> ColorsRequired (Header bm) = 0 \<and>
         Data bm = replicate (unat (ImageDataSize (Header bm))) 0 \<and>
         Palette bm = (if depth = 8 then Some (replicate 1024 0) else None)))"
proof (intro conjI impI)
  assume "width = 0 \<or> height = 0"
  then show "BMP_Create width height depth = (BMP_INVALID_ARGUMENT, None)"
    by (auto simp: BMP_Create_def)
next
  assume "width \<noteq> 0 \<and> height \<noteq> 0 \<and> depth \<noteq> 8 \<and> depth \<noteq> 24 \<and> depth \<noteq> 32"
  then show "BMP_Create width height depth = (BMP_FILE_NOT_SUPPORTED, None)"
    by (simp add: BMP_Create_def)
next
  assume a: "width \<noteq> 0 \<and> height \<noteq> 0 \<and> (depth = 8 \<or> depth = 24 \<or> depth = 32)"
  define b :: "32 word" where "b = ucast (drop_bit 3 depth)"
  define size :: "32 word"
    where "size = (width * b + (if (width * b) mod 4 \<noteq> 0 then 4 - (width * b) mod 4 else 0)) * height"
  define R where "R = RowStride_spec (unat width) (unat depth div 8) * unat height"
  define off :: "32 word" where "off = 54 + (if depth = 8 then of_nat BMP_PALETTE_SIZE else 0)"
  have b: "unat b = unat depth div 8"
    using a by (auto simp: b_def)
  have size: "unat size = R mod 2 ^ 32"
    unfolding size_def R_def by (simp only: image_size_unat b)
  have off: "unat off = 54 + (if depth = 8 then 1024 else 0)"
    by (simp add: off_def BMP_PALETTE_SIZE_def)
  have fs: "unat (size + off) = (unat off + R) mod 2 ^ 32"
  proof -
    have "unat (size + off) = (unat size + unat off) mod 2 ^ 32"
      by (simp add: unat_word_ariths)
    also have "\<dots> = (R mod 2 ^ 32 + unat off) mod 2 ^ 32"
      by (simp only: size)
    also have "\<dots> = (R + unat off) mod 2 ^ 32"
      by (rule mod_add_left_eq)
    finally show ?thesis by (simp only: add.commute)
  qed
  have fs': "size + 54 + (if depth = 8 then of_nat BMP_PALETTE_SIZE else 0) = size + off"
    by (simp add: off_def)
  have exact: "unat size = R \<and> unat (size + off) = unat off + unat size"
    if "54 + 1024 + R < 2 ^ 32"
  proof -
    from that have "R mod 2 ^ 32 = R" "(unat off + R) mod 2 ^ 32 = unat off + R"
      using off by (simp_all split: if_splits)
    then show ?thesis using size fs by simp
  qed
  show "\<exists>bm. BMP_Create width height depth = (BMP_OK, Some bm) \<and>
         Width (Header bm) = width \<and> Height (Header bm) = height \<and>
         BitsPerPixel (Header bm) = depth \<and>
         unat (ImageDataSize (Header bm))
           = (RowStride_spec (unat width) (unat depth div 8) * unat height) mod 2 ^ 32 \<and>
         unat (DataOffset (Header bm)) = 54 + (if depth = 8 then 1024 else 0) \<and>
         unat (FileSize (Header bm))
           = (unat (DataOffset (Header bm))
               + RowStride_spec (unat width) (unat depth div 8) * unat height) mod 2 ^ 32 \<and>
         (54 + 1024 + RowStride_spec (unat width) (unat depth div 8) * unat height < 2 ^ 32 \<longrightarrow>
            unat (ImageDataSize (Header bm))
              = RowStride_spec (unat width) (unat depth div 8) * unat height \<and>
            unat (FileSize (Header bm))
              = unat (DataOffset (Header bm)) + unat (ImageDataSize (Header bm))) \<and>
         Magic (Header bm) = 0x4D42 \<and> Reserved1 (Header bm) = 0 \<and> Reserved2 (Header bm) = 0 \<and>
         HeaderSize (Header bm) = 40 \<and> Planes (Header bm) = 1 \<and>
         CompressionType (Header bm) = 0 \<and>
         HPixelsPerMeter (Header bm) = 0 \<and> VPixelsPerMeter (Header bm) = 0 \<and>
         ColorsUsed (Header bm) = 0 \<and> ColorsRequired (Header bm) = 0 \<and>
         Data bm = replicate (unat (ImageDataSize (Header bm))) 0 \<and>
         Palette bm = (if depth = 8 then Some (replicate 1024 0) else None)"
    using a size off fs exact
    unfolding BMP_Create_def Let_def b_def [symmetric] size_def [symmetric] fs' R_def [symmetric]
      off_def [symmetric]
    by (simp add: BMP_PALETTE_SIZE_def)
qed

theorem BMP_Create_result_witness:
  "BMP_Create 0 5 24 = (BMP_INVALID_ARGUMENT, None) \<and>
   BMP_Create 3 3 16 = (BMP_FILE_NOT_SUPPORTED, None) \<and>
   (\<exists>bm. BMP_Create 5 2 8 = (BMP_OK, Some bm) \<and> unat (ImageDataSize (Header bm)) = 8 * 2 \<and>
      unat (DataOffset (Header bm)) = 1078 \<and> unat (FileSize (Header bm)) = 1078 + 16 \<and>
      Data bm = replicate 16 0 \<and> Palette bm = Some (replicate 1024 0)) \<and>
   (\<exists>bm. BMP_Create 1 1 24 = (BMP_OK, Some bm) \<and> unat (ImageDataSize (Header bm)) = 4 \<and>
      unat (DataOffset (Header bm)) = 54 \<and> Palette bm = None) \<and>
   (\<exists>bm. BMP_Create 2 1 24 = (BMP_OK, Some bm) \<and> unat (ImageDataSize (Header bm)) = 8) \<and>
   (\<exists>bm. BMP_Create 4 1 32 = (BMP_OK, Some bm) \<and> unat (ImageDataSize (Header bm)) = 16)"
  using BMP_Create_result [of 0 5 24] BMP_Create_result [of 3 3 16]
    BMP_Create_result [of 5 2 8] BMP_Create_result [of 1 1 24]
    BMP_Create_result [of 2 1 24] BMP_Create_result [of 4 1 32]
  by (auto simp: RowStride_spec_def)

text \<open>The claim as stated, with the formulas over the integers, fails where the 32-bit
  product wraps: for width \<open>0x40000001\<close>, height 1 and depth 32 the row stride of the
  specification is 4294967300, and the bitmap returned has \<open>ImageDataSize = 4\<close>.\<close>

theorem BMP_Create_wraps_counterexample:
  "fst (BMP_Create 0x40000001 1 32) = BMP_OK \<and>
   unat (ImageDataSize (Header (the (snd (BMP_Create 0x40000001 1 32))))) = 4 \<and>
   RowStride_spec (unat (0x40000001 :: 32 word)) (unat (32 :: 16 word) div 8)
     * unat (1 :: 32 word) = 4294967300"
  by (simp add: BMP_Create_def Let_def RowStride_spec_def)

section \<open>Valid bitmaps\<close>

text \<open>The header that \<^verbatim>\<open>BMP_Create\<close> fills in, and the buffers it allocates.\<close>

lemma BMP_Create_fields:
  assumes "BMP_Create width height depth = (BMP_OK, Some bm)"
  shows "width \<noteq> 0" "height \<noteq> 0" "depth = 8 \<or> depth = 24 \<or> depth = 32"
    "Width (Header bm) = width" "Height (Header bm) = height" "BitsPerPixel (Header bm) = depth"
    "HeaderSize (Header bm) = 40" "CompressionType (Header bm) = 0"
    "unat (DataOffset (Header bm)) = 54 + (if depth = 8 then 1024 else 0)"
    "unat (ImageDataSize (Header bm))
       = (RowStride_spec (unat width) (unat depth div 8) * unat height) mod 2 ^ 32"
proof -
  from assms show ok: "width \<noteq> 0" "height \<noteq> 0" "depth = 8 \<or> depth = 24 \<or> depth = 32"
    by (auto simp: BMP_Create_def Let_def split: if_splits)
  from assms ok show "Width (Header bm) = width" "Height (Header bm) = height"
    "BitsPerPixel (Header bm) = depth" "HeaderSize (Header bm) = 40"
    "CompressionType (Header bm) = 0"
    by (auto simp: BMP_Create_def Let_def split: if_splits)
  from assms ok show "unat (DataOffset (Header bm)) = 54 + (if depth = 8 then 1024 else 0)"
    by (auto simp: BMP_Create_def Let_def BMP_PALETTE_SIZE_def split: if_splits)
  define b :: "32 word" where "b = ucast (drop_bit 3 depth)"
  have b: "unat b = unat depth div 8"
    using ok(3) by (auto simp: b_def)
  from assms ok have "ImageDataSize (Header bm)
      = (width * b + (if (width * b) mod 4 \<noteq> 0 then 4 - (width * b) mod 4 else 0)) * height"
    unfolding BMP_Create_def Let_def b_def [symmetric]
    by (auto split: if_splits)
  then show "unat (ImageDataSize (Header bm))
       = (RowStride_spec (unat width) (unat depth div 8) * unat height) mod 2 ^ 32"
    by (simp only: image_size_unat b)
qed

text \<open>A bitmap made by \<^verbatim>\<open>BMP_Create\<close> is valid whenever its pixel data fits 32 bits, the
  setters keep a bitmap valid, and in a valid bitmap every pixel with in-bounds coordinates
  lies inside the pixel buffer.\<close>

lemma BMP_Create_buffers:
  assumes "BMP_Create width height depth = (BMP_OK, Some bm)"
  shows "length (Data bm) = unat (ImageDataSize (Header bm))"
    and "Palette bm = (if depth = 8 then Some (replicate BMP_PALETTE_SIZE 0) else None)"
  using assms by (auto simp: BMP_Create_def Let_def split: if_splits)

lemma unat_mult32: "unat a * unat b < 2 ^ 32 \<Longrightarrow> unat (a * b :: 32 word) = unat a * unat b"
  by (simp add: unat_word_ariths)

lemma unat_add32: "unat a + unat b < 2 ^ 32 \<Longrightarrow> unat (a + b :: 32 word) = unat a + unat b"
  by (simp add: unat_word_ariths)

lemma valid_pixel_inside:
  assumes v: "valid_bitmap bm"
    and xy: "x < Width (Header bm)" "y < Height (Header bm)"
  shows "pixel_offset (Header bm) x y (ucast (drop_bit 3 (BitsPerPixel (Header bm))))
           + unat (BitsPerPixel (Header bm)) div 8 \<le> length (Data bm)"
proof -
  define R where
    "R = RowStride_spec (unat (Width (Header bm))) (unat (BitsPerPixel (Header bm)) div 8)"
  define H where "H = unat (Height (Header bm))"
  define b where "b = unat (BitsPerPixel (Header bm)) div 8"
  have depth: "BitsPerPixel (Header bm) = 8 \<or> BitsPerPixel (Header bm) = 24
      \<or> BitsPerPixel (Header bm) = 32"
    and size: "unat (ImageDataSize (Header bm)) = R * H"
    and len: "length (Data bm) = unat (ImageDataSize (Header bm))"
    and H0: "Height (Header bm) \<noteq> 0"
    using v by (simp_all add: valid_bitmap_def Let_def R_def H_def)
  have H: "0 < H" using H0 by (simp add: H_def unat_gt_0)
  have wb: "unat (Width (Header bm)) * b \<le> R"
    by (simp add: R_def RowStride_spec_def b_def)
  have x: "unat x < unat (Width (Header bm))" and y: "unat y < H"
    using xy by (simp_all add: word_less_nat_alt H_def)
  have RH: "R * H < 2 ^ 32"
    using unsigned_less [of "ImageDataSize (Header bm)", where 'a = nat] by (simp add: size)
  have R: "R < 2 ^ 32"
  proof -
    have "1 \<le> H" using H by simp
    then have "R * 1 \<le> R * H" by (rule mult_le_mono2)
    then have "R \<le> R * H" by (simp only: mult_1_right)
    then show ?thesis using RH by (rule le_less_trans)
  qed
  have bpr: "unat (ImageDataSize (Header bm) div Height (Header bm)) = R"
    using H by (simp add: unat_div size H_def [symmetric])
  have row: "unat (Height (Header bm) - y - 1) = H - unat y - 1"
  proof -
    have d: "unat (Height (Header bm) - y) = H - unat y"
      using xy(2) by (simp add: unat_sub H_def)
    have "unat (1 :: 32 word) \<le> unat (Height (Header bm) - y)"
      using y by (simp add: d)
    then have "1 \<le> Height (Header bm) - y"
      by (simp only: word_le_nat_alt)
    then have "unat (Height (Header bm) - y - 1)
        = unat (Height (Header bm) - y) - unat (1 :: 32 word)"
      by (rule unat_sub)
    then show ?thesis by (simp add: d)
  qed
  have le1: "(H - unat y - 1) * R + R \<le> R * H"
  proof -
    have "(H - unat y - 1) + 1 \<le> H" using y by simp
    then have "((H - unat y - 1) + 1) * R \<le> H * R" by (rule mult_le_mono1)
    then show ?thesis by (simp add: algebra_simps)
  qed
  have cast: "unat (ucast (ucast (drop_bit 3 (BitsPerPixel (Header bm))) :: 8 word) :: 32 word) = b"
    using depth by (auto simp: b_def)
  have xb: "unat x * b + b \<le> unat (Width (Header bm)) * b"
  proof -
    have "(unat x + 1) * b \<le> unat (Width (Header bm)) * b"
      using x by (intro mult_le_mono1) simp
    then show ?thesis by (simp add: algebra_simps)
  qed
  have prod1: "unat ((Height (Header bm) - y - 1) * (ImageDataSize (Header bm) div Height (Header bm)))
      = (H - unat y - 1) * R"
  proof -
    have "unat (Height (Header bm) - y - 1) * unat (ImageDataSize (Header bm) div Height (Header bm))
        < 2 ^ 32"
      using le1 RH by (simp add: row bpr)
    then show ?thesis by (simp only: unat_mult32 row bpr)
  qed
  have prod2: "unat (x * ucast (ucast (drop_bit 3 (BitsPerPixel (Header bm))) :: 8 word) :: 32 word) = unat x * b"
  proof -
    have "unat x * unat (ucast (ucast (drop_bit 3 (BitsPerPixel (Header bm))) :: 8 word) :: 32 word) < 2 ^ 32"
      using xb wb R by (simp add: cast)
    then show ?thesis by (simp only: unat_mult32 cast)
  qed
  have "unat ((Height (Header bm) - y - 1) * (ImageDataSize (Header bm) div Height (Header bm))
            + x * ucast (ucast (drop_bit 3 (BitsPerPixel (Header bm))) :: 8 word))
      = (H - unat y - 1) * R + unat x * b"
  proof -
    have "unat ((Height (Header bm) - y - 1) * (ImageDataSize (Header bm) div Height (Header bm)))
        + unat (x * ucast (ucast (drop_bit 3 (BitsPerPixel (Header bm))) :: 8 word) :: 32 word) < 2 ^ 32"
      using le1 RH xb wb by (simp add: prod1 prod2)
    then show ?thesis by (simp only: unat_add32 prod1 prod2)
  qed
  then have "pixel_offset (Header bm) x y (ucast (drop_bit 3 (BitsPerPixel (Header bm)))) = (H - unat y - 1) * R + unat x * b"
    by (simp only: pixel_offset_def Let_def)
  then show ?thesis
    using le1 xb wb by (simp add: len size b_def [symmetric])
qed

lemma created_valid:
  assumes c: "BMP_Create width height depth = (BMP_OK, Some bm)"
    and fits: "RowStride_spec (unat width) (unat depth div 8) * unat height < 2 ^ 32"
  shows "valid_bitmap bm"
proof -
  note f = BMP_Create_fields [OF c]
  note g = BMP_Create_buffers [OF c]
  have "unat (ImageDataSize (Header bm))
      = RowStride_spec (unat width) (unat depth div 8) * unat height"
    using f(10) fits by simp
  then show ?thesis
    using f g by (auto simp: valid_bitmap_def Let_def BMP_PALETTE_SIZE_def)
qed

lemma setters_keep_valid:
  "BMP_SetPixelRGB (Some bm) x y r g b = Returns (st, Some bm') \<Longrightarrow> valid_bitmap bm
     \<Longrightarrow> valid_bitmap bm'"
  "BMP_SetPixelIndex (Some bm) x y v = Returns (st, Some bm') \<Longrightarrow> valid_bitmap bm
     \<Longrightarrow> valid_bitmap bm'"
  "BMP_SetPaletteColor (Some bm) i r g b = Returns (st, Some bm') \<Longrightarrow> valid_bitmap bm
     \<Longrightarrow> valid_bitmap bm'"
  by (auto simp: BMP_SetPixelRGB_def BMP_SetPixelIndex_def BMP_SetPaletteColor_def store_def Let_def
      valid_bitmap_def bytes_of_def split: if_splits option.splits)


lemma valid_palette:
  "valid_bitmap bm \<Longrightarrow> BitsPerPixel (Header bm) = 8 \<Longrightarrow>
   \<exists>pal. Palette bm = Some pal \<and> length pal = BMP_PALETTE_SIZE"
  by (auto simp: valid_bitmap_def Let_def split: option.splits)

lemma valid_index_inside:
  assumes "valid_bitmap bm" and "BitsPerPixel (Header bm) = 8"
    and "x < Width (Header bm)" and "y < Height (Header bm)"
  shows "pixel_offset (Header bm) x y 1 < length (Data bm)"
  using valid_pixel_inside [OF assms(1,3,4)] assms(2) by simp

section \<open>The accessors\<close>

text \<open>Claim C7. For every bitmap and every coordinate pair with \<open>x \<ge> Width\<close> or
  \<open>y \<ge> Height\<close>, each of the four pixel accessors reports \<^verbatim>\<open>BMP_INVALID_ARGUMENT\<close> and
  returns normally whatever the buffers of the bitmap are (so no byte of them is accessed):
  the output cells of the readers and the bitmap given to the writers are as before. The
  test comes before the test of the depth, since the result is the same for every depth.\<close>

theorem bounds_checked_first:
  "Width (Header bm) \<le> x \<or> Height (Header bm) \<le> y \<Longrightarrow>
     BMP_GetPixelRGB (Some bm) x y r g b = Returns (BMP_INVALID_ARGUMENT, r, g, b) \<and>
     BMP_SetPixelRGB (Some bm) x y r' g' b' = Returns (BMP_INVALID_ARGUMENT, Some bm) \<and>
     BMP_GetPixelIndex (Some bm) x y val = Returns (BMP_INVALID_ARGUMENT, val) \<and>
     BMP_SetPixelIndex (Some bm) x y val' = Returns (BMP_INVALID_ARGUMENT, Some bm)"
  by (simp add: BMP_GetPixelRGB_def BMP_SetPixelRGB_def BMP_GetPixelIndex_def
      BMP_SetPixelIndex_def)

theorem bounds_checked_first_witness:
  "BMP_GetPixelRGB (snd (BMP_Create 2 2 8)) 2 0 (Some 7) None (Some 9)
     = Returns (BMP_INVALID_ARGUMENT, Some 7, None, Some 9) \<and>
   BMP_SetPixelRGB (snd (BMP_Create 2 2 8)) 0 2 1 2 3
     = Returns (BMP_INVALID_ARGUMENT, snd (BMP_Create 2 2 8)) \<and>
   BMP_GetPixelIndex (snd (BMP_Create 2 2 24)) 2 2 (Some 7)
     = Returns (BMP_INVALID_ARGUMENT, Some 7) \<and>
   BMP_SetPixelIndex (snd (BMP_Create 2 2 24)) 5 0 1
     = Returns (BMP_INVALID_ARGUMENT, snd (BMP_Create 2 2 24))"
proof -
  define bm8 where "bm8 = the (snd (BMP_Create 2 2 8))"
  define bm24 where "bm24 = the (snd (BMP_Create 2 2 24))"
  have c8: "snd (BMP_Create 2 2 8) = Some bm8" and c24: "snd (BMP_Create 2 2 24) = Some bm24"
    by (simp_all add: bm8_def bm24_def BMP_Create_def Let_def)
  have h8: "Width (Header bm8) = 2" "Height (Header bm8) = 2"
    by (simp_all add: bm8_def BMP_Create_def Let_def)
  have h24: "Width (Header bm24) = 2" "Height (Header bm24) = 2"
    by (simp_all add: bm24_def BMP_Create_def Let_def)
  show ?thesis
    using bounds_checked_first [of bm8 2 0 "Some 7" None "Some 9"]
      bounds_checked_first [of bm8 0 2 _ _ _ 1 2 3]
      bounds_checked_first [of bm24 2 2 _ _ _ _ _ _ "Some 7"]
      bounds_checked_first [of bm24 5 0 _ _ _ _ _ _ _ 1]
    by (simp add: c8 c24 h8 h24)
qed

text \<open>The depth tests of the pixel accessors, in terms of the buffers alone.\<close>

lemma depth_gating_buffers:
  assumes "x < Width (Header bm)" and "y < Height (Header bm)"
  shows "(BitsPerPixel (Header bm) = 8 \<longrightarrow>
            BMP_SetPixelRGB (Some bm) x y r g b = Returns (BMP_TYPE_MISMATCH, Some bm)) \<and>
         (BitsPerPixel (Header bm) = 24 \<or> BitsPerPixel (Header bm) = 32 \<longrightarrow>
            BMP_GetPixelIndex (Some bm) x y val = Returns (BMP_TYPE_MISMATCH, val) \<and>
            BMP_SetPixelIndex (Some bm) x y v = Returns (BMP_TYPE_MISMATCH, Some bm)) \<and>
         (BitsPerPixel (Header bm) = 8 \<and> pixel_offset (Header bm) x y 1 < length (Data bm) \<and>
          Palette bm = Some pal \<and> length pal = BMP_PALETTE_SIZE \<longrightarrow>
            BMP_GetPixelRGB (Some bm) x y (Some r0) (Some g0) (Some b0) =
              (let i = unat (Data bm ! pixel_offset (Header bm) x y 1)
               in Returns (BMP_OK, Some (pal ! (i * 4 + 2)), Some (pal ! (i * 4 + 1)),
                           Some (pal ! (i * 4 + 0)))))"
proof -
  have inside: "\<not> (Width (Header bm) \<le> x \<or> Height (Header bm) \<le> y)"
    using assms by auto
  show ?thesis
  proof (intro conjI impI)
  assume "BitsPerPixel (Header bm) = 8"
  with inside show "BMP_SetPixelRGB (Some bm) x y r g b = Returns (BMP_TYPE_MISMATCH, Some bm)"
    by (simp add: BMP_SetPixelRGB_def)
next
  assume "BitsPerPixel (Header bm) = 24 \<or> BitsPerPixel (Header bm) = 32"
  then have "BitsPerPixel (Header bm) \<noteq> 8" by auto
  with inside show "BMP_GetPixelIndex (Some bm) x y val = Returns (BMP_TYPE_MISMATCH, val)"
    and "BMP_SetPixelIndex (Some bm) x y v = Returns (BMP_TYPE_MISMATCH, Some bm)"
    by (simp_all add: BMP_GetPixelIndex_def BMP_SetPixelIndex_def)
next
  assume a: "BitsPerPixel (Header bm) = 8 \<and> pixel_offset (Header bm) x y 1 < length (Data bm) \<and>
          Palette bm = Some pal \<and> length pal = BMP_PALETTE_SIZE"
  define i where "i = Data bm ! pixel_offset (Header bm) x y 1"
  have "unat i * 4 + 2 < length pal"
    using a palette_slot [of i] by (simp add: BMP_PALETTE_SIZE_def)
  then have "fetch_rgb pal (unat i * 4) (Some r0) (Some g0) (Some b0) =
      Returns (Some (pal ! (unat i * 4 + 2)), Some (pal ! (unat i * 4 + 1)), Some (pal ! (unat i * 4)))"
    by (simp add: fetch_rgb_inside)
  with a inside show "BMP_GetPixelRGB (Some bm) x y (Some r0) (Some g0) (Some b0) =
              (let i = unat (Data bm ! pixel_offset (Header bm) x y 1)
               in Returns (BMP_OK, Some (pal ! (i * 4 + 2)), Some (pal ! (i * 4 + 1)),
                           Some (pal ! (i * 4 + 0))))"
    by (simp add: BMP_GetPixelRGB_def load_def bytes_of_def i_def Let_def)
qed
qed

text \<open>Claim C8. For in-bounds coordinates: \<^verbatim>\<open>BMP_SetPixelRGB\<close> on a depth-8 bitmap reports
  \<^verbatim>\<open>BMP_TYPE_MISMATCH\<close> and leaves the bitmap as it is; \<^verbatim>\<open>BMP_GetPixelIndex\<close> and
  \<^verbatim>\<open>BMP_SetPixelIndex\<close> on a depth-24 or depth-32 bitmap report \<^verbatim>\<open>BMP_TYPE_MISMATCH\<close> and
  change neither the output cell nor the bitmap; \<^verbatim>\<open>BMP_GetPixelRGB\<close> on a valid depth-8
  bitmap succeeds, and gives the palette entry selected by the stored byte.\<close>

theorem depth_gating:
  assumes "x < Width (Header bm)" and "y < Height (Header bm)"
  shows "(BitsPerPixel (Header bm) = 8 \<longrightarrow>
            BMP_SetPixelRGB (Some bm) x y r g b = Returns (BMP_TYPE_MISMATCH, Some bm)) \<and>
         (BitsPerPixel (Header bm) = 24 \<or> BitsPerPixel (Header bm) = 32 \<longrightarrow>
            BMP_GetPixelIndex (Some bm) x y val = Returns (BMP_TYPE_MISMATCH, val) \<and>
            BMP_SetPixelIndex (Some bm) x y v = Returns (BMP_TYPE_MISMATCH, Some bm)) \<and>
         (BitsPerPixel (Header bm) = 8 \<and> valid_bitmap bm \<longrightarrow>
            (\<exists>pal. Palette bm = Some pal \<and>
               BMP_GetPixelRGB (Some bm) x y (Some r0) (Some g0) (Some b0) =
                 (let i = unat (Data bm ! pixel_offset (Header bm) x y 1)
                  in Returns (BMP_OK, Some (pal ! (i * 4 + 2)), Some (pal ! (i * 4 + 1)),
                              Some (pal ! (i * 4 + 0))))))"
proof (intro conjI impI)
  assume "BitsPerPixel (Header bm) = 8"
  then show "BMP_SetPixelRGB (Some bm) x y r g b = Returns (BMP_TYPE_MISMATCH, Some bm)"
    using depth_gating_buffers [OF assms, of r g b] by simp
next
  assume d: "BitsPerPixel (Header bm) = 24 \<or> BitsPerPixel (Header bm) = 32"
  then show "BMP_GetPixelIndex (Some bm) x y val = Returns (BMP_TYPE_MISMATCH, val)"
    using depth_gating_buffers [OF assms, of _ _ _ val v] by simp
  from d show "BMP_SetPixelIndex (Some bm) x y v = Returns (BMP_TYPE_MISMATCH, Some bm)"
    using depth_gating_buffers [OF assms, of _ _ _ val v] by simp
next
  assume a: "BitsPerPixel (Header bm) = 8 \<and> valid_bitmap bm"
  then obtain pal where pal: "Palette bm = Some pal" "length pal = BMP_PALETTE_SIZE"
    using valid_palette by blast
  have "pixel_offset (Header bm) x y 1 < length (Data bm)"
    using a assms by (intro valid_index_inside) simp_all
  with a pal show "\<exists>pal. Palette bm = Some pal \<and>
               BMP_GetPixelRGB (Some bm) x y (Some r0) (Some g0) (Some b0) =
                 (let i = unat (Data bm ! pixel_offset (Header bm) x y 1)
                  in Returns (BMP_OK, Some (pal ! (i * 4 + 2)), Some (pal ! (i * 4 + 1)),
                              Some (pal ! (i * 4 + 0))))"
    using depth_gating_buffers [OF assms, of _ _ _ _ _ pal r0 g0 b0] by simp
qed

theorem depth_gating_witness:
  "BMP_SetPixelRGB (snd (BMP_Create 2 2 8)) 0 0 1 2 3
     = Returns (BMP_TYPE_MISMATCH, snd (BMP_Create 2 2 8)) \<and>
   BMP_GetPixelIndex (snd (BMP_Create 2 2 24)) 1 1 (Some 7) = Returns (BMP_TYPE_MISMATCH, Some 7) \<and>
   BMP_SetPixelIndex (snd (BMP_Create 2 2 24)) 1 1 7
     = Returns (BMP_TYPE_MISMATCH, snd (BMP_Create 2 2 24)) \<and>
   BMP_GetPixelRGB (snd (BMP_Create 2 2 8)) 1 0 (Some 7) (Some 8) (Some 9)
     = Returns (BMP_OK, Some 0, Some 0, Some 0)"
proof -
  define bm8 where "bm8 = the (snd (BMP_Create 2 2 8))"
  define bm24 where "bm24 = the (snd (BMP_Create 2 2 24))"
  have c8: "BMP_Create 2 2 8 = (BMP_OK, Some bm8)" and c24: "BMP_Create 2 2 24 = (BMP_OK, Some bm24)"
    by (simp_all add: bm8_def bm24_def BMP_Create_def Let_def)
  have v8: "valid_bitmap bm8"
    using c8 by (rule created_valid) (simp add: RowStride_spec_def)
  have h8: "Width (Header bm8) = 2" "Height (Header bm8) = 2" "BitsPerPixel (Header bm8) = 8"
    "ImageDataSize (Header bm8) = 8"
    "Palette bm8 = Some (replicate BMP_PALETTE_SIZE 0)" "Data bm8 = replicate 8 0"
    by (simp_all add: bm8_def BMP_Create_def Let_def)
  have h24: "Width (Header bm24) = 2" "Height (Header bm24) = 2" "BitsPerPixel (Header bm24) = 24"
    by (simp_all add: bm24_def BMP_Create_def Let_def)
  have off: "pixel_offset (Header bm8) 1 0 1 = 5"
    by (simp add: pixel_offset_def h8)
  have s: "snd (BMP_Create 2 2 8) = Some bm8" "snd (BMP_Create 2 2 24) = Some bm24"
    using c8 c24 by simp_all
  show ?thesis
    using depth_gating [of 0 bm8 0 1 2 3]
      depth_gating [of 1 bm24 1 _ _ _ "Some 7" 7]
      depth_gating [of 1 bm8 0 _ _ _ _ _ 7 8 9]
    by (simp add: s v8 h8 h24 off BMP_PALETTE_SIZE_def)
qed

text \<open>Writing and reading a palette entry, in terms of the buffers alone.\<close>

lemma palette_entry_buffers:
  assumes "BitsPerPixel (Header bm) = 8" and "Palette bm = Some pal"
    and "length pal = BMP_PALETTE_SIZE"
  shows "\<exists>pal'.
     BMP_SetPaletteColor (Some bm) i r g b = Returns (BMP_OK, Some (bm\<lparr>Palette := Some pal'\<rparr>)) \<and>
     length pal' = BMP_PALETTE_SIZE \<and>
     pal' ! (unat i * 4 + 0) = b \<and> pal' ! (unat i * 4 + 1) = g \<and>
     pal' ! (unat i * 4 + 2) = r \<and> pal' ! (unat i * 4 + 3) = pal ! (unat i * 4 + 3) \<and>
     (\<forall>k. k div 4 \<noteq> unat i \<longrightarrow> pal' ! k = pal ! k) \<and>
     BMP_GetPaletteColor (Some (bm\<lparr>Palette := Some pal'\<rparr>)) i (Some r0) (Some g0) (Some b0)
       = Returns (BMP_OK, Some r, Some g, Some b) \<and>
     (\<forall>j ro go bo. j \<noteq> i \<longrightarrow>
        BMP_GetPaletteColor (Some (bm\<lparr>Palette := Some pal'\<rparr>)) j ro go bo
          = BMP_GetPaletteColor (Some bm) j ro go bo) \<and>
     (\<forall>x y. x < Width (Header bm) \<and> y < Height (Header bm) \<and>
            pixel_offset (Header bm) x y 1 < length (Data bm) \<and>
            Data bm ! pixel_offset (Header bm) x y 1 = i \<longrightarrow>
        BMP_GetPixelRGB (Some (bm\<lparr>Palette := Some pal'\<rparr>)) x y (Some r0) (Some g0) (Some b0)
          = Returns (BMP_OK, Some r, Some g, Some b))"
proof -
  define p where "p = unat i * 4"
  define pal' where "pal' = pal[p + 2 := r, p + 1 := g, p := b]"
  have len: "length pal = 1024" "length pal' = 1024"
    using assms by (simp_all add: pal'_def BMP_PALETTE_SIZE_def)
  have p: "p + 3 < 1024" using palette_slot [of i] by (simp add: p_def)
  have set: "BMP_SetPaletteColor (Some bm) i r g b
      = Returns (BMP_OK, Some (bm\<lparr>Palette := Some pal'\<rparr>))"
    using assms p len
    by (simp add: BMP_SetPaletteColor_def store_def bytes_of_def pal'_def p_def)
  have vals: "pal' ! p = b" "pal' ! (p + 1) = g" "pal' ! (p + 2) = r" "pal' ! (p + 3) = pal ! (p + 3)"
    using p len by (simp_all add: pal'_def)
  have others: "pal' ! k = pal ! k" if "k div 4 \<noteq> unat i" for k
  proof -
    from that have "k \<noteq> p" "k \<noteq> p + 1" "k \<noteq> p + 2" by (auto simp: p_def)
    then show ?thesis by (simp add: pal'_def)
  qed
  have fetch: "fetch_rgb pal' p (Some r0) (Some g0) (Some b0) = Returns (Some r, Some g, Some b)"
    using p len vals by (simp add: fetch_rgb_inside)
  have get: "BMP_GetPaletteColor (Some (bm\<lparr>Palette := Some pal'\<rparr>)) i (Some r0) (Some g0) (Some b0)
       = Returns (BMP_OK, Some r, Some g, Some b)"
    using assms fetch by (simp add: BMP_GetPaletteColor_def bytes_of_def p_def)
  have other_get: "BMP_GetPaletteColor (Some (bm\<lparr>Palette := Some pal'\<rparr>)) j ro go bo
          = BMP_GetPaletteColor (Some bm) j ro go bo" if "j \<noteq> i" for j ro go bo
  proof -
    have q: "unat j * 4 + 3 < 1024" by (rule palette_slot)
    from that have ne: "unat j \<noteq> unat i" by (simp add: word_unat_eq_iff)
    have "(unat j * 4 + 2) div 4 = unat j" "(unat j * 4 + 1) div 4 = unat j"
      "(unat j * 4) div 4 = unat j" by simp_all
    with ne have "pal' ! (unat j * 4 + 2) = pal ! (unat j * 4 + 2)"
      "pal' ! (unat j * 4 + 1) = pal ! (unat j * 4 + 1)" "pal' ! (unat j * 4) = pal ! (unat j * 4)"
      using others by metis+
    with q len show ?thesis
      using assms by (simp add: BMP_GetPaletteColor_def bytes_of_def fetch_rgb_inside)
  qed
  have pixel: "BMP_GetPixelRGB (Some (bm\<lparr>Palette := Some pal'\<rparr>)) x y (Some r0) (Some g0) (Some b0)
          = Returns (BMP_OK, Some r, Some g, Some b)"
    if "x < Width (Header bm) \<and> y < Height (Header bm) \<and>
            pixel_offset (Header bm) x y 1 < length (Data bm) \<and>
            Data bm ! pixel_offset (Header bm) x y 1 = i" for x y
  proof -
    from that have "\<not> (Width (Header bm) \<le> x \<or> Height (Header bm) \<le> y)" by auto
    with that assms fetch show ?thesis
      by (simp add: BMP_GetPixelRGB_def load_def bytes_of_def p_def)
  qed
  show ?thesis
    apply (rule exI [of _ pal'])
    using set len vals others get other_get pixel
    by (simp add: p_def BMP_PALETTE_SIZE_def)
qed

text \<open>Claim C9. On a valid depth-8 bitmap, \<^verbatim>\<open>BMP_SetPaletteColor\<close> of index \<open>i\<close> to
  \<open>(r, g, b)\<close> succeeds and leaves a valid bitmap that differs in the palette only: the
  palette holds \<open>b\<close>, \<open>g\<close>, \<open>r\<close> at bytes \<open>4i\<close>, \<open>4i + 1\<close>, \<open>4i + 2\<close>, and the fourth byte of
  the entry and all other entries are unchanged; \<^verbatim>\<open>BMP_GetPaletteColor\<close> of \<open>i\<close> and
  \<^verbatim>\<open>BMP_GetPixelRGB\<close> of any in-bounds pixel whose stored byte is \<open>i\<close> return \<open>(r, g, b)\<close>;
  \<^verbatim>\<open>BMP_GetPaletteColor\<close> of any other index returns what it returned before.\<close>

theorem palette_set_then_get:
  assumes "valid_bitmap bm" and "BitsPerPixel (Header bm) = 8"
  shows "\<exists>pal pal'.
     Palette bm = Some pal \<and>
     BMP_SetPaletteColor (Some bm) i r g b = Returns (BMP_OK, Some (bm\<lparr>Palette := Some pal'\<rparr>)) \<and>
     valid_bitmap (bm\<lparr>Palette := Some pal'\<rparr>) \<and>
     pal' ! (unat i * 4 + 0) = b \<and> pal' ! (unat i * 4 + 1) = g \<and>
     pal' ! (unat i * 4 + 2) = r \<and> pal' ! (unat i * 4 + 3) = pal ! (unat i * 4 + 3) \<and>
     (\<forall>k. k div 4 \<noteq> unat i \<longrightarrow> pal' ! k = pal ! k) \<and>
     BMP_GetPaletteColor (Some (bm\<lparr>Palette := Some pal'\<rparr>)) i (Some r0) (Some g0) (Some b0)
       = Returns (BMP_OK, Some r, Some g, Some b) \<and>
     (\<forall>j ro go bo. j \<noteq> i \<longrightarrow>
        BMP_GetPaletteColor (Some (bm\<lparr>Palette := Some pal'\<rparr>)) j ro go bo
          = BMP_GetPaletteColor (Some bm) j ro go bo) \<and>
     (\<forall>x y. x < Width (Header bm) \<and> y < Height (Header bm) \<and>
            Data bm ! pixel_offset (Header bm) x y 1 = i \<longrightarrow>
        BMP_GetPixelRGB (Some (bm\<lparr>Palette := Some pal'\<rparr>)) x y (Some r0) (Some g0) (Some b0)
          = Returns (BMP_OK, Some r, Some g, Some b))"
proof -
  obtain pal where pal: "Palette bm = Some pal" "length pal = BMP_PALETTE_SIZE"
    using valid_palette [OF assms] by blast
  from palette_entry_buffers [OF assms(2) pal, of i r g b r0 g0 b0]
  obtain pal' where
    set: "BMP_SetPaletteColor (Some bm) i r g b = Returns (BMP_OK, Some (bm\<lparr>Palette := Some pal'\<rparr>))"
    and len: "length pal' = BMP_PALETTE_SIZE"
    and bytes: "pal' ! (unat i * 4 + 0) = b" "pal' ! (unat i * 4 + 1) = g"
      "pal' ! (unat i * 4 + 2) = r" "pal' ! (unat i * 4 + 3) = pal ! (unat i * 4 + 3)"
    and others: "\<forall>k. k div 4 \<noteq> unat i \<longrightarrow> pal' ! k = pal ! k"
    and get: "BMP_GetPaletteColor (Some (bm\<lparr>Palette := Some pal'\<rparr>)) i (Some r0) (Some g0) (Some b0)
       = Returns (BMP_OK, Some r, Some g, Some b)"
    and other_get: "\<forall>j ro go bo. j \<noteq> i \<longrightarrow>
        BMP_GetPaletteColor (Some (bm\<lparr>Palette := Some pal'\<rparr>)) j ro go bo
          = BMP_GetPaletteColor (Some bm) j ro go bo"
    and pixel: "\<forall>x y. x < Width (Header bm) \<and> y < Height (Header bm) \<and>
            pixel_offset (Header bm) x y 1 < length (Data bm) \<and>
            Data bm ! pixel_offset (Header bm) x y 1 = i \<longrightarrow>
        BMP_GetPixelRGB (Some (bm\<lparr>Palette := Some pal'\<rparr>)) x y (Some r0) (Some g0) (Some b0)
          = Returns (BMP_OK, Some r, Some g, Some b)"
    by blast
  have v': "valid_bitmap (bm\<lparr>Palette := Some pal'\<rparr>)"
    using set assms(1) by (rule setters_keep_valid(3))
  have pixel': "BMP_GetPixelRGB (Some (bm\<lparr>Palette := Some pal'\<rparr>)) x y (Some r0) (Some g0) (Some b0)
          = Returns (BMP_OK, Some r, Some g, Some b)"
    if "x < Width (Header bm) \<and> y < Height (Header bm) \<and>
        Data bm ! pixel_offset (Header bm) x y 1 = i" for x y
  proof -
    have "pixel_offset (Header bm) x y 1 < length (Data bm)"
      using assms that by (intro valid_index_inside) simp_all
    with pixel that show ?thesis by blast
  qed
  show ?thesis
    using pal(1) set v' bytes others get other_get pixel' by blast
qed

theorem palette_set_then_get_witness:
  "and_then (BMP_SetPixelIndex (snd (BMP_Create 1 1 8)) 0 0 5) (\<lambda>(s1, bm1).
   and_then (BMP_SetPaletteColor bm1 5 10 20 30) (\<lambda>(s2, bm2).
     BMP_GetPixelRGB bm2 0 0 (Some 0) (Some 0) (Some 0)))
   = Returns (BMP_OK, Some 10, Some 20, Some 30)"
proof -
  define bm0 where "bm0 = the (snd (BMP_Create 1 1 8))"
  define bm1 where "bm1 = bm0\<lparr>Data := (replicate 4 0)[0 := 5]\<rparr>"
  have c: "BMP_Create 1 1 8 = (BMP_OK, Some bm0)"
    by (simp add: bm0_def BMP_Create_def Let_def)
  have v0: "valid_bitmap bm0"
    using c by (rule created_valid) (simp add: RowStride_spec_def)
  have h0: "Width (Header bm0) = 1" "Height (Header bm0) = 1" "BitsPerPixel (Header bm0) = 8"
    "ImageDataSize (Header bm0) = 4"
    "Palette bm0 = Some (replicate BMP_PALETTE_SIZE 0)" "Data bm0 = replicate 4 0"
    by (simp_all add: bm0_def BMP_Create_def Let_def)
  have off: "pixel_offset (Header bm0) 0 0 1 = 0"
    by (simp add: pixel_offset_def h0)
  have s1: "BMP_SetPixelIndex (Some bm0) 0 0 5 = Returns (BMP_OK, Some bm1)"
    by (simp add: BMP_SetPixelIndex_def h0 off store_def bm1_def)
  have v1: "valid_bitmap bm1"
    using s1 v0 by (rule setters_keep_valid(2))
  have h1: "BitsPerPixel (Header bm1) = 8" by (simp add: bm1_def h0)
  from palette_set_then_get [OF v1 h1, of 5 10 20 30 0 0 0]
  obtain pal' where s2: "BMP_SetPaletteColor (Some bm1) 5 10 20 30
        = Returns (BMP_OK, Some (bm1\<lparr>Palette := Some pal'\<rparr>))"
    and px: "\<forall>x y. x < Width (Header bm1) \<and> y < Height (Header bm1) \<and>
            Data bm1 ! pixel_offset (Header bm1) x y 1 = 5 \<longrightarrow>
        BMP_GetPixelRGB (Some (bm1\<lparr>Palette := Some pal'\<rparr>)) x y (Some 0) (Some 0) (Some 0)
          = Returns (BMP_OK, Some 10, Some 20, Some 30)"
    by blast
  have "BMP_GetPixelRGB (Some (bm1\<lparr>Palette := Some pal'\<rparr>)) 0 0 (Some 0) (Some 0) (Some 0)
          = Returns (BMP_OK, Some 10, Some 20, Some 30)"
    using px [rule_format, of 0 0] by (simp add: bm1_def h0 off)
  moreover have "snd (BMP_Create 1 1 8) = Some bm0" using c by simp
  ultimately show ?thesis by (simp add: s1 s2)
qed

text \<open>The conditional stores of the readers, in terms of the buffers alone.\<close>

lemma null_outputs_buffers:
  assumes "x < Width (Header bm)" and "y < Height (Header bm)"
  shows
    "(BitsPerPixel (Header bm) \<noteq> 8 \<and>
      p = pixel_offset (Header bm) x y (ucast (drop_bit 3 (BitsPerPixel (Header bm)))) \<and>
      p + 2 < length (Data bm) \<longrightarrow>
        BMP_GetPixelRGB (Some bm) x y r g b =
          Returns (BMP_OK, map_option (\<lambda>_. Data bm ! (p + 2)) r,
                   map_option (\<lambda>_. Data bm ! (p + 1)) g, map_option (\<lambda>_. Data bm ! p) b)) \<and>
     (BitsPerPixel (Header bm) = 8 \<and> q = pixel_offset (Header bm) x y 1 \<and>
      q < length (Data bm) \<longrightarrow>
        BMP_GetPixelIndex (Some bm) x y val =
          Returns (BMP_OK, map_option (\<lambda>_. Data bm ! q) val)) \<and>
     (BitsPerPixel (Header bm) = 8 \<and> q = pixel_offset (Header bm) x y 1 \<and>
      q < length (Data bm) \<and> Palette bm = Some pal \<and> length pal = BMP_PALETTE_SIZE \<and>
      c = unat (Data bm ! q) * 4 \<longrightarrow>
        BMP_GetPixelRGB (Some bm) x y r g b =
          Returns (BMP_OK, map_option (\<lambda>_. pal ! (c + 2)) r,
                   map_option (\<lambda>_. pal ! (c + 1)) g, map_option (\<lambda>_. pal ! c) b)) \<and>
     (BitsPerPixel (Header bm) = 8 \<and> Palette bm = Some pal \<and> length pal = BMP_PALETTE_SIZE \<and>
      e = unat i * 4 \<longrightarrow>
        BMP_GetPaletteColor (Some bm) i r g b =
          Returns (BMP_OK, map_option (\<lambda>_. pal ! (e + 2)) r,
                   map_option (\<lambda>_. pal ! (e + 1)) g, map_option (\<lambda>_. pal ! e) b))"
proof -
  have inside: "\<not> (Width (Header bm) \<le> x \<or> Height (Header bm) \<le> y)"
    using assms by auto
  have pal_fetch: "fetch_rgb pal (unat j * 4) r g b =
      Returns (map_option (\<lambda>_. pal ! (unat j * 4 + 2)) r,
               map_option (\<lambda>_. pal ! (unat j * 4 + 1)) g, map_option (\<lambda>_. pal ! (unat j * 4)) b)"
    if "length pal = BMP_PALETTE_SIZE" for j :: byte
    using that palette_slot [of j] by (simp add: fetch_rgb_inside BMP_PALETTE_SIZE_def)
  show ?thesis
  proof (intro conjI impI)
    assume "BitsPerPixel (Header bm) \<noteq> 8 \<and>
      p = pixel_offset (Header bm) x y (ucast (drop_bit 3 (BitsPerPixel (Header bm)))) \<and>
      p + 2 < length (Data bm)"
    with inside show "BMP_GetPixelRGB (Some bm) x y r g b =
          Returns (BMP_OK, map_option (\<lambda>_. Data bm ! (p + 2)) r,
                   map_option (\<lambda>_. Data bm ! (p + 1)) g, map_option (\<lambda>_. Data bm ! p) b)"
      by (simp add: BMP_GetPixelRGB_def fetch_rgb_inside)
  next
    assume "BitsPerPixel (Header bm) = 8 \<and> q = pixel_offset (Header bm) x y 1 \<and>
      q < length (Data bm)"
    with inside show "BMP_GetPixelIndex (Some bm) x y val =
          Returns (BMP_OK, map_option (\<lambda>_. Data bm ! q) val)"
      by (simp add: BMP_GetPixelIndex_def load_out_def load_def split: option.splits)
  next
    assume "BitsPerPixel (Header bm) = 8 \<and> q = pixel_offset (Header bm) x y 1 \<and>
      q < length (Data bm) \<and> Palette bm = Some pal \<and> length pal = BMP_PALETTE_SIZE \<and>
      c = unat (Data bm ! q) * 4"
    with inside show "BMP_GetPixelRGB (Some bm) x y r g b =
          Returns (BMP_OK, map_option (\<lambda>_. pal ! (c + 2)) r,
                   map_option (\<lambda>_. pal ! (c + 1)) g, map_option (\<lambda>_. pal ! c) b)"
      by (simp add: BMP_GetPixelRGB_def load_def bytes_of_def pal_fetch Let_def)
  next
    assume "BitsPerPixel (Header bm) = 8 \<and> Palette bm = Some pal \<and> length pal = BMP_PALETTE_SIZE \<and>
      e = unat i * 4"
    then show "BMP_GetPaletteColor (Some bm) i r g b =
          Returns (BMP_OK, map_option (\<lambda>_. pal ! (e + 2)) r,
                   map_option (\<lambda>_. pal ! (e + 1)) g, map_option (\<lambda>_. pal ! e) b)"
      by (simp add: BMP_GetPaletteColor_def bytes_of_def pal_fetch)
  qed
qed

text \<open>Claim C10. For every valid bitmap and in-bounds coordinates, \<^verbatim>\<open>BMP_GetPixelRGB\<close>,
  \<^verbatim>\<open>BMP_GetPixelIndex\<close> and \<^verbatim>\<open>BMP_GetPaletteColor\<close> accept a null pointer for each output
  argument: a null output stays null, every other output receives its value, and the
  status is \<^verbatim>\<open>BMP_OK\<close>.\<close>

theorem null_outputs_tolerated:
  assumes "valid_bitmap bm" and "x < Width (Header bm)" and "y < Height (Header bm)"
  shows
    "(BitsPerPixel (Header bm) \<noteq> 8 \<longrightarrow>
        BMP_GetPixelRGB (Some bm) x y r g b =
          (let p = pixel_offset (Header bm) x y (ucast (drop_bit 3 (BitsPerPixel (Header bm))))
           in Returns (BMP_OK, map_option (\<lambda>_. Data bm ! (p + 2)) r,
                       map_option (\<lambda>_. Data bm ! (p + 1)) g,
                       map_option (\<lambda>_. Data bm ! p) b))) \<and>
     (BitsPerPixel (Header bm) = 8 \<longrightarrow>
        BMP_GetPixelIndex (Some bm) x y val =
          Returns (BMP_OK, map_option (\<lambda>_. Data bm ! pixel_offset (Header bm) x y 1) val) \<and>
        (\<exists>pal. Palette bm = Some pal \<and>
           BMP_GetPixelRGB (Some bm) x y r g b =
             (let c = unat (Data bm ! pixel_offset (Header bm) x y 1) * 4
              in Returns (BMP_OK, map_option (\<lambda>_. pal ! (c + 2)) r,
                          map_option (\<lambda>_. pal ! (c + 1)) g, map_option (\<lambda>_. pal ! c) b)) \<and>
           BMP_GetPaletteColor (Some bm) i r g b =
             (let e = unat i * 4
              in Returns (BMP_OK, map_option (\<lambda>_. pal ! (e + 2)) r,
                          map_option (\<lambda>_. pal ! (e + 1)) g, map_option (\<lambda>_. pal ! e) b))))"
proof (intro conjI impI)
  assume d: "BitsPerPixel (Header bm) \<noteq> 8"
  define p where "p = pixel_offset (Header bm) x y (ucast (drop_bit 3 (BitsPerPixel (Header bm))))"
  have "BitsPerPixel (Header bm) = 24 \<or> BitsPerPixel (Header bm) = 32"
    using assms(1) d by (auto simp: valid_bitmap_def Let_def)
  then have "3 \<le> unat (BitsPerPixel (Header bm)) div 8" by auto
  then have "p + 2 < length (Data bm)"
    using valid_pixel_inside [OF assms] by (simp add: p_def)
  then show "BMP_GetPixelRGB (Some bm) x y r g b =
          (let p = pixel_offset (Header bm) x y (ucast (drop_bit 3 (BitsPerPixel (Header bm))))
           in Returns (BMP_OK, map_option (\<lambda>_. Data bm ! (p + 2)) r,
                       map_option (\<lambda>_. Data bm ! (p + 1)) g,
                       map_option (\<lambda>_. Data bm ! p) b))"
    using null_outputs_buffers [OF assms(2,3), of p r g b] d
    by (simp add: p_def Let_def)
next
  assume d: "BitsPerPixel (Header bm) = 8"
  have q: "pixel_offset (Header bm) x y 1 < length (Data bm)"
    using assms d by (intro valid_index_inside) simp_all
  then show "BMP_GetPixelIndex (Some bm) x y val =
          Returns (BMP_OK, map_option (\<lambda>_. Data bm ! pixel_offset (Header bm) x y 1) val)"
    using null_outputs_buffers [OF assms(2,3), of _ _ _ _ "pixel_offset (Header bm) x y 1" val] d
    by simp
  obtain pal where pal: "Palette bm = Some pal" "length pal = BMP_PALETTE_SIZE"
    using valid_palette [OF assms(1) d] by blast
  show "\<exists>pal. Palette bm = Some pal \<and>
           BMP_GetPixelRGB (Some bm) x y r g b =
             (let c = unat (Data bm ! pixel_offset (Header bm) x y 1) * 4
              in Returns (BMP_OK, map_option (\<lambda>_. pal ! (c + 2)) r,
                          map_option (\<lambda>_. pal ! (c + 1)) g, map_option (\<lambda>_. pal ! c) b)) \<and>
           BMP_GetPaletteColor (Some bm) i r g b =
             (let e = unat i * 4
              in Returns (BMP_OK, map_option (\<lambda>_. pal ! (e + 2)) r,
                          map_option (\<lambda>_. pal ! (e + 1)) g, map_option (\<lambda>_. pal ! e) b))"
    using null_outputs_buffers [OF assms(2,3), of _ r g b "pixel_offset (Header bm) x y 1" _ pal
        "unat (Data bm ! pixel_offset (Header bm) x y 1) * 4" "unat i * 4" i] d q pal
    by (simp add: Let_def)
qed

theorem null_outputs_tolerated_witness:
  "BMP_GetPixelRGB (snd (BMP_Create 2 2 24)) 1 0 None (Some 7) None
     = Returns (BMP_OK, None, Some 0, None) \<and>
   BMP_GetPixelIndex (snd (BMP_Create 2 2 8)) 1 0 None = Returns (BMP_OK, None) \<and>
   BMP_GetPixelRGB (snd (BMP_Create 2 2 8)) 1 0 (Some 7) None (Some 9)
     = Returns (BMP_OK, Some 0, None, Some 0) \<and>
   BMP_GetPaletteColor (snd (BMP_Create 2 2 8)) 5 None None (Some 9)
     = Returns (BMP_OK, None, None, Some 0)"
proof -
  define bm8 where "bm8 = the (snd (BMP_Create 2 2 8))"
  define bm24 where "bm24 = the (snd (BMP_Create 2 2 24))"
  have c8: "BMP_Create 2 2 8 = (BMP_OK, Some bm8)" and c24: "BMP_Create 2 2 24 = (BMP_OK, Some bm24)"
    by (simp_all add: bm8_def bm24_def BMP_Create_def Let_def)
  have v8: "valid_bitmap bm8"
    using c8 by (rule created_valid) (simp add: RowStride_spec_def)
  have v24: "valid_bitmap bm24"
    using c24 by (rule created_valid) (simp add: RowStride_spec_def)
  have h8: "Width (Header bm8) = 2" "Height (Header bm8) = 2" "BitsPerPixel (Header bm8) = 8"
    "ImageDataSize (Header bm8) = 8"
    "Palette bm8 = Some (replicate BMP_PALETTE_SIZE 0)" "Data bm8 = replicate 8 0"
    by (simp_all add: bm8_def BMP_Create_def Let_def)
  have h24: "Width (Header bm24) = 2" "Height (Header bm24) = 2"
    "BitsPerPixel (Header bm24) = 24" "ImageDataSize (Header bm24) = 16"
    "Data bm24 = replicate 16 0"
    by (simp_all add: bm24_def BMP_Create_def Let_def)
  have off8: "pixel_offset (Header bm8) 1 0 1 = 5"
    by (simp add: pixel_offset_def h8)
  have off24: "pixel_offset (Header bm24) 1 0 3 = 11"
    by (simp add: pixel_offset_def h24)
  have s: "snd (BMP_Create 2 2 8) = Some bm8" "snd (BMP_Create 2 2 24) = Some bm24"
    using c8 c24 by simp_all
  show ?thesis
    using null_outputs_tolerated [OF v24, of 1 0 None "Some 7" None]
      null_outputs_tolerated [OF v8, of 1 0 _ _ _ None]
      null_outputs_tolerated [OF v8, of 1 0 "Some 7" None "Some 9"]
      null_outputs_tolerated [OF v8, of 1 0 None None "Some 9" _ 5]
    by (simp add: s h8 h24 off8 off24 BMP_PALETTE_SIZE_def)
qed

section \<open>The row loop of BMP_ReadFile\<close>

text \<open>The loop counter is non-negative as an \<^verbatim>\<open>int\<close> exactly when its bit pattern is below
  \<open>2\<^sup>3\<^sup>1\<close>.\<close>

lemma sint_nonneg_iff: "0 \<le> sint (x :: 32 word) \<longleftrightarrow> unat x < 2 ^ 31"
proof -
  define k where "k = uint x"
  have k: "0 \<le> k" "k < 2 ^ 32"
    using uint_lt2p [of x] by (simp_all add: k_def)
  have "0 \<le> sint x \<longleftrightarrow> \<not> bit k 31"
    by (simp add: sint_uint k_def)
  also have "\<dots> \<longleftrightarrow> even (k div 2 ^ 31)"
    by (simp add: bit_iff_odd)
  also have "\<dots> \<longleftrightarrow> k < 2 ^ 31"
  proof (cases "k < 2 ^ 31")
    case True
    with k have "k div 2 ^ 31 = 0" by simp
    with True show ?thesis by simp
  next
    case False
    with k have "k div 2 ^ 31 = 1" by simp
    with False show ?thesis by simp
  qed
  also have "\<dots> \<longleftrightarrow> unat x < 2 ^ 31"
  proof -
    have "unat x = nat k" by (simp add: k_def)
    moreover have "nat k < 2 ^ 31 \<longleftrightarrow> k < 2 ^ 31" using k by (simp add: nat_less_iff)
    ultimately show ?thesis by (simp only:)
  qed
  finally show ?thesis .
qed

lemma nth_overwrite:
  "a + length bs \<le> length d \<Longrightarrow> i < length d \<Longrightarrow>
   (take a d @ bs @ drop (a + length bs) d) ! i =
     (if i < a then d ! i else if i < a + length bs then bs ! (i - a) else d ! i)"
  by (auto simp: nth_append min_def)

lemma length_overwrite:
  "a + length bs \<le> length d \<Longrightarrow> length (take a d @ bs @ drop (a + length bs) d) = length d"
  by simp

lemma read_rows_exit:
  "\<not> 0 \<le> sint idx \<Longrightarrow> read_rows w idx d f = Some (Returns (BMP_OK, d))"
  by (subst read_rows.simps) simp

lemma read_rows_short:
  "0 \<le> sint idx \<Longrightarrow> length f < unat w \<Longrightarrow> unat idx + length f \<le> length d \<Longrightarrow>
   \<exists>d'. read_rows w idx d f = Some (Returns (BMP_FILE_INVALID, d'))"
  by (subst read_rows.simps) (simp add: fread_buf_def fread_bytes_def)

lemma read_rows_row:
  "0 \<le> sint idx \<Longrightarrow> unat w \<le> length f \<Longrightarrow> unat idx + unat w \<le> length d \<Longrightarrow>
   read_rows w idx d f =
     read_rows w (idx - w)
       (take (unat idx) d @ take (unat w) f @ drop (unat idx + length (take (unat w) f)) d)
       (drop (unat w + row_padding w) f)"
  by (subst read_rows.simps)
     (simp add: fread_buf_def fread_bytes_def row_padding_def min_def add.commute)

lemma word_of_rows:
  fixes W :: "32 word"
  assumes "k * unat W < 2 ^ 31"
  shows "unat (of_nat (k * unat W) :: 32 word) = k * unat W"
    and "0 \<le> sint (of_nat (k * unat W) :: 32 word)"
    and "(of_nat (Suc k * unat W) :: 32 word) - W = of_nat (k * unat W)"
proof -
  show u: "unat (of_nat (k * unat W) :: 32 word) = k * unat W"
  proof -
    have "k * unat W < 2 ^ LENGTH(32)" using assms by simp
    then show ?thesis by (simp only: unat_of_nat mod_less)
  qed
  show "0 \<le> sint (of_nat (k * unat W) :: 32 word)"
    using assms by (simp only: sint_nonneg_iff u)
  show "(of_nat (Suc k * unat W) :: 32 word) - W = of_nat (k * unat W)"
    by simp
qed

lemma sint_last_row:
  fixes W :: "32 word"
  assumes "0 < unat W" and "unat W < 2 ^ 31"
  shows "\<not> 0 \<le> sint (0 - W)"
proof -
  have "unat (0 - W) = (if unat W \<le> unat (0 :: 32 word) then unat (0 :: 32 word) - unat W
      else unat (0 :: 32 word) + 2 ^ size (0 :: 32 word) - unat W)"
    by (rule unat_sub_if_size)
  with assms have "unat (0 - W) = 2 ^ 32 - unat W"
    by (simp add: word_size)
  with assms show ?thesis by (simp only: sint_nonneg_iff) simp
qed

text \<open>A run of the loop over \<open>k + 1\<close> rows of \<open>Width\<close> bytes, from the row at
  \<open>k * Width\<close> down to the row at 0. A file that ends before the last row has its
  \<open>Width\<close> bytes stops the loop with \<^verbatim>\<open>BMP_FILE_INVALID\<close>; otherwise the loop completes, and
  the \<open>j\<close>-th row read from the file lies at offset \<open>(k - j) * Width\<close> of the buffer.\<close>

lemma read_rows_truncated:
  fixes W :: "32 word"
  assumes W: "0 < unat W"
  shows "Suc k * unat W \<le> length d \<Longrightarrow> k * unat W < 2 ^ 31 \<Longrightarrow>
         length f < k * (unat W + row_padding W) + unat W \<Longrightarrow>
         \<exists>d'. read_rows W (of_nat (k * unat W)) d f = Some (Returns (BMP_FILE_INVALID, d'))"
proof (induction k arbitrary: d f)
  case 0
  then show ?case
    using read_rows_short [of 0 f W d] by simp
next
  case (Suc k)
  define idx :: "32 word" where "idx = of_nat (Suc k * unat W)"
  have idx: "unat idx = Suc k * unat W" "0 \<le> sint idx" "idx - W = of_nat (k * unat W)"
    unfolding idx_def using word_of_rows [of "Suc k" W] word_of_rows(3) [of k W] Suc.prems(2)
    by simp_all
  show ?case
  proof (cases "length f < unat W")
    case True
    with Suc.prems idx show ?thesis
      using read_rows_short [of idx f W d] by (simp add: idx_def)
  next
    case False
    define d1 where
      "d1 = take (unat idx) d @ take (unat W) f @ drop (unat idx + length (take (unat W) f)) d"
    define f1 where "f1 = drop (unat W + row_padding W) f"
    have step: "read_rows W idx d f = read_rows W (of_nat (k * unat W)) d1 f1"
      using False Suc.prems(1) idx read_rows_row [of idx W f d]
      by (simp add: d1_def f1_def)
    have len: "length d1 = length d"
      using False Suc.prems(1) idx by (simp add: d1_def)
    have "length f1 < k * (unat W + row_padding W) + unat W"
      using Suc.prems(3) W by (simp add: f1_def)
    moreover have "Suc k * unat W \<le> length d1" "k * unat W < 2 ^ 31"
      using Suc.prems len by simp_all
    ultimately have "\<exists>d'. read_rows W (of_nat (k * unat W)) d1 f1
        = Some (Returns (BMP_FILE_INVALID, d'))"
      by (rule Suc.IH [rotated 2])
    with step show ?thesis by (simp add: idx_def)
  qed
qed

lemma read_rows_complete:
  fixes W :: "32 word"
  assumes W: "0 < unat W" "unat W < 2 ^ 31"
  shows "Suc k * unat W \<le> length d \<Longrightarrow> k * unat W < 2 ^ 31 \<Longrightarrow>
         k * (unat W + row_padding W) + unat W \<le> length f \<Longrightarrow>
         \<exists>d'. read_rows W (of_nat (k * unat W)) d f = Some (Returns (BMP_OK, d')) \<and>
              length d' = length d \<and>
              (\<forall>j x. j \<le> k \<longrightarrow> x < unat W \<longrightarrow>
                 d' ! ((k - j) * unat W + x) = f ! (j * (unat W + row_padding W) + x)) \<and>
              (\<forall>i. Suc k * unat W \<le> i \<longrightarrow> i < length d \<longrightarrow> d' ! i = d ! i)"
proof (induction k arbitrary: d f)
  case 0
  define w where "w = unat W"
  define bs where "bs = take (unat W) f"
  have bs: "length bs = w" "\<And>x. x < w \<Longrightarrow> bs ! x = f ! x"
    using 0 by (simp_all add: bs_def w_def)
  define d1 where "d1 = take 0 d @ bs @ drop (0 + length bs) d"
  have "read_rows W 0 d f = read_rows W (0 - W) d1 (drop (unat W + row_padding W) f)"
    using 0 read_rows_row [of 0 W f d] by (simp add: d1_def bs_def)
  also have "\<dots> = Some (Returns (BMP_OK, d1))"
    using sint_last_row [OF W] by (rule read_rows_exit)
  finally have run: "read_rows W 0 d f = Some (Returns (BMP_OK, d1))" .
  have fit: "0 + length bs \<le> length d" using 0 bs by (simp add: w_def)
  have len: "length d1 = length d"
    unfolding d1_def using fit by (rule length_overwrite)
  have nth: "d1 ! i = (if i < 0 then d ! i else if i < 0 + length bs then bs ! (i - 0) else d ! i)"
    if "i < length d" for i
    unfolding d1_def using fit that by (rule nth_overwrite)
  have "d1 ! x = f ! x" if "x < w" for x
  proof -
    have "x < length d" using that 0 by (simp add: w_def)
    from nth [OF this] that bs show ?thesis by simp
  qed
  moreover have "d1 ! i = d ! i" if "w \<le> i" "i < length d" for i
    using nth [OF that(2)] that(1) bs by simp
  ultimately show ?case using run len by (simp add: w_def)
next
  case (Suc k)
  define w where "w = unat W"
  define c where "c = unat W + row_padding W"
  define idx :: "32 word" where "idx = of_nat (Suc k * unat W)"
  have idx: "unat idx = Suc k * w" "0 \<le> sint idx" "idx - W = of_nat (k * unat W)"
    unfolding idx_def w_def
    using word_of_rows [of "Suc k" W] word_of_rows(3) [of k W] Suc.prems(2)
    by simp_all
  define bs where "bs = take (unat W) f"
  have wf: "w \<le> length f" using Suc.prems(3) by (simp add: w_def)
  have bs: "length bs = w" "\<And>x. x < w \<Longrightarrow> bs ! x = f ! x"
    using wf by (simp_all add: bs_def w_def)
  define d1 where "d1 = take (unat idx) d @ bs @ drop (unat idx + length bs) d"
  define f1 where "f1 = drop c f"
  have fit: "unat idx + length bs \<le> length d"
    using Suc.prems(1) idx bs by (simp add: w_def)
  have "read_rows W idx d f = read_rows W (idx - W) d1 f1"
    unfolding d1_def f1_def bs_def c_def
    using idx(2) wf fit [unfolded bs(1)] by (intro read_rows_row) (simp_all add: w_def)
  then have step: "read_rows W idx d f = read_rows W (of_nat (k * unat W)) d1 f1"
    by (simp only: idx)
  have len: "length d1 = length d"
    unfolding d1_def using fit by (rule length_overwrite)
  have nth: "d1 ! i = (if i < unat idx then d ! i
                       else if i < unat idx + length bs then bs ! (i - unat idx) else d ! i)"
    if "i < length d" for i
    unfolding d1_def using fit that by (rule nth_overwrite)
  have "k * (unat W + row_padding W) + unat W \<le> length f1"
    using Suc.prems(3) by (simp add: f1_def c_def)
  moreover have "Suc k * unat W \<le> length d1" "k * unat W < 2 ^ 31"
    using Suc.prems len by simp_all
  ultimately have "\<exists>d'. read_rows W (of_nat (k * unat W)) d1 f1 = Some (Returns (BMP_OK, d')) \<and>
              length d' = length d1 \<and>
              (\<forall>j x. j \<le> k \<longrightarrow> x < unat W \<longrightarrow>
                 d' ! ((k - j) * unat W + x) = f1 ! (j * (unat W + row_padding W) + x)) \<and>
              (\<forall>i. Suc k * unat W \<le> i \<longrightarrow> i < length d1 \<longrightarrow> d' ! i = d1 ! i)"
    by (rule Suc.IH [rotated 2])
  then obtain d' where run: "read_rows W (of_nat (k * unat W)) d1 f1 = Some (Returns (BMP_OK, d'))"
    and len': "length d' = length d1"
    and rows: "\<And>j x. j \<le> k \<Longrightarrow> x < w \<Longrightarrow> d' ! ((k - j) * w + x) = f1 ! (j * c + x)"
    and rest: "\<And>i. Suc k * w \<le> i \<Longrightarrow> i < length d1 \<Longrightarrow> d' ! i = d1 ! i"
    unfolding w_def c_def by blast
  have row: "d' ! ((Suc k - j) * w + x) = f ! (j * c + x)" if "j \<le> Suc k" "x < w" for j x
  proof (cases j)
    case 0
    have i: "Suc k * w + x < length d" using that Suc.prems(1) by (simp add: w_def)
    have "d' ! (Suc k * w + x) = d1 ! (Suc k * w + x)"
      using rest [of "Suc k * w + x"] i len by simp
    also have "\<dots> = bs ! x" using nth [OF i] that idx(1) bs(1) by simp
    also have "\<dots> = f ! x" using that bs by simp
    finally show ?thesis using 0 by simp
  next
    case (Suc j')
    have "j' * c + x + c \<le> length f"
    proof -
      have "j' \<le> k" using that Suc by simp
      then have "j' * c \<le> k * c" by (rule mult_le_mono1)
      moreover have "c + k * c + w \<le> length f"
        using Suc.prems(3) by (simp add: c_def w_def)
      ultimately show ?thesis using that(2) by linarith
    qed
    then have "f1 ! (j' * c + x) = f ! (c + (j' * c + x))"
      by (simp add: f1_def)
    with rows [of j' x] that Suc show ?thesis by (simp add: add.commute add.left_commute)
  qed
  have keep: "d' ! i = d ! i" if "Suc (Suc k) * w \<le> i" "i < length d" for i
  proof -
    have "Suc k * w \<le> i" using that(1) by simp
    then have "d' ! i = d1 ! i" using rest [of i] that len by simp
    also have "\<dots> = d ! i" using nth [OF that(2)] that(1) idx(1) bs(1) by simp
    finally show ?thesis .
  qed
  have "read_rows W (of_nat (Suc k * unat W)) d f = Some (Returns (BMP_OK, d'))"
    using step run by (simp only: idx_def)
  moreover have "length d' = length d" using len len' by simp
  ultimately show ?case
    using row keep unfolding w_def c_def by blast
qed

section \<open>BMP_ReadFile after the header\<close>

lemma first_row_index:
  fixes H W :: "32 word"
  assumes "H \<noteq> 0"
  shows "(H - 1) * W = of_nat ((unat H - 1) * unat W)"
proof -
  have "1 \<le> unat H" using assms by (simp add: unat_gt_0 Suc_le_eq)
  then have "(of_nat (unat H - 1) :: 32 word) = H - 1"
    by (simp add: of_nat_diff)
  then show ?thesis by simp
qed

lemma length_malloc: "length (malloc junk n) = n"
  by (simp add: malloc_def)

lemma nth_malloc: "i < n \<Longrightarrow> malloc junk n ! i = junk i"
  by (simp add: malloc_def)

lemma fread_palette:
  "BMP_PALETTE_SIZE \<le> length f \<Longrightarrow>
   fread_buf (malloc junk BMP_PALETTE_SIZE) 0 BMP_PALETTE_SIZE f
     = Returns (BMP_PALETTE_SIZE, take BMP_PALETTE_SIZE f, drop BMP_PALETTE_SIZE f)"
  by (simp add: fread_buf_def fread_bytes_def length_malloc)

lemma fread_palette_short:
  "length f < BMP_PALETTE_SIZE \<Longrightarrow>
   \<exists>pal. fread_buf (malloc junk BMP_PALETTE_SIZE) 0 BMP_PALETTE_SIZE f
     = Returns (length f, pal, [])"
  by (simp add: fread_buf_def fread_bytes_def length_malloc)

lemma BMP_ReadFile_rows:
  assumes "fopen_rb name = Some f" and "ReadHeader f = Some (h, f1)"
    and "Magic h = 0x4D42"
    and "BitsPerPixel h = 8 \<or> BitsPerPixel h = 24 \<or> BitsPerPixel h = 32"
    and "CompressionType h = 0" and "HeaderSize h = 40"
    and "BitsPerPixel h = 8 \<longrightarrow> BMP_PALETTE_SIZE \<le> length f1"
  shows "BMP_ReadFile fopen_rb junk (Some name) =
     (case read_rows (Width h) ((Height h - 1) * Width h) (malloc junk (unat (ImageDataSize h)))
             (if BitsPerPixel h = 8 then drop BMP_PALETTE_SIZE f1 else f1) of
        None \<Rightarrow> None
      | Some Undefined \<Rightarrow> Some Undefined
      | Some (Returns (status, data)) \<Rightarrow>
          if status \<noteq> BMP_OK then Some (Returns (status, None))
          else Some (Returns (BMP_OK,
                 Some \<lparr> Header = h,
                        Palette = (if BitsPerPixel h = 8 then Some (take BMP_PALETTE_SIZE f1)
                                   else None),
                        Data = data \<rparr>)))"
  using assms(4)
proof (elim disjE)
  assume "BitsPerPixel h = 8"
  with assms show ?thesis
    by (simp add: BMP_ReadFile_def fread_palette)
next
  assume "BitsPerPixel h = 24"
  with assms show ?thesis
    by (simp add: BMP_ReadFile_def)
next
  assume "BitsPerPixel h = 32"
  with assms show ?thesis
    by (simp add: BMP_ReadFile_def)
qed

lemma decode_rows_complete:
  assumes env: "fopen_rb name = Some f" "ReadHeader f = Some (h, f1)"
    and sup: "Magic h = 0x4D42" "BitsPerPixel h = 8 \<or> BitsPerPixel h = 24 \<or> BitsPerPixel h = 32"
      "CompressionType h = 0" "HeaderSize h = 40"
    and pal: "BitsPerPixel h = 8 \<longrightarrow> BMP_PALETTE_SIZE \<le> length f1"
    and payload: "payload = (if BitsPerPixel h = 8 then drop BMP_PALETTE_SIZE f1 else f1)"
    and dims: "Width h \<noteq> 0" "Height h \<noteq> 0" "unat (Height h) * unat (Width h) < 2 ^ 31"
      "unat (Height h) * unat (Width h) \<le> unat (ImageDataSize h)"
    and enough: "(unat (Height h) - 1) * (unat (Width h) + row_padding (Width h)) + unat (Width h)
                   \<le> length payload"
  shows "\<exists>data. BMP_ReadFile fopen_rb junk (Some name) =
           Some (Returns (BMP_OK,
             Some \<lparr> Header = h,
                    Palette = (if BitsPerPixel h = 8 then Some (take BMP_PALETTE_SIZE f1) else None),
                    Data = data \<rparr>)) \<and>
           length data = unat (ImageDataSize h) \<and>
           (\<forall>j x. j < unat (Height h) \<longrightarrow> x < unat (Width h) \<longrightarrow>
              data ! ((unat (Height h) - 1 - j) * unat (Width h) + x)
                = payload ! (j * (unat (Width h) + row_padding (Width h)) + x)) \<and>
           (\<forall>i. unat (Height h) * unat (Width h) \<le> i \<longrightarrow> i < unat (ImageDataSize h) \<longrightarrow>
              data ! i = junk i)"
proof -
  define k where "k = unat (Height h) - 1"
  define w where "w = unat (Width h)"
  have H: "unat (Height h) = Suc k"
    using dims(2) by (simp add: k_def unat_gt_0)
  have w: "0 < w" "w < 2 ^ 31"
  proof -
    show "0 < w" using dims(1) by (simp add: w_def unat_gt_0)
    have "w \<le> Suc k * w" by simp
    with dims(3) show "w < 2 ^ 31" by (simp add: H w_def)
  qed
  have kw: "k * w < 2 ^ 31"
  proof -
    have "k * w \<le> Suc k * w" by simp
    with dims(3) show ?thesis by (simp add: H w_def)
  qed
  have "\<exists>d'. read_rows (Width h) (of_nat (k * unat (Width h)))
              (malloc junk (unat (ImageDataSize h))) payload = Some (Returns (BMP_OK, d')) \<and>
          length d' = length (malloc junk (unat (ImageDataSize h))) \<and>
          (\<forall>j x. j \<le> k \<longrightarrow> x < unat (Width h) \<longrightarrow>
             d' ! ((k - j) * unat (Width h) + x)
               = payload ! (j * (unat (Width h) + row_padding (Width h)) + x)) \<and>
          (\<forall>i. Suc k * unat (Width h) \<le> i \<longrightarrow> i < length (malloc junk (unat (ImageDataSize h)))
             \<longrightarrow> d' ! i = malloc junk (unat (ImageDataSize h)) ! i)"
  proof (rule read_rows_complete)
    show "0 < unat (Width h)" "unat (Width h) < 2 ^ 31" using w by (simp_all add: w_def)
    show "Suc k * unat (Width h) \<le> length (malloc junk (unat (ImageDataSize h)))"
      using dims(4) by (simp only: H length_malloc)
    show "k * unat (Width h) < 2 ^ 31" using kw by (simp only: w_def)
    show "k * (unat (Width h) + row_padding (Width h)) + unat (Width h) \<le> length payload"
      using enough by (simp only: k_def)
  qed
  then obtain d' where
    run: "read_rows (Width h) ((Height h - 1) * Width h)
              (malloc junk (unat (ImageDataSize h))) payload = Some (Returns (BMP_OK, d'))"
    and len: "length d' = unat (ImageDataSize h)"
    and rows: "\<And>j x. j \<le> k \<Longrightarrow> x < w \<Longrightarrow>
                d' ! ((k - j) * w + x) = payload ! (j * (w + row_padding (Width h)) + x)"
    and rest: "\<And>i. Suc k * w \<le> i \<Longrightarrow> i < unat (ImageDataSize h) \<Longrightarrow> d' ! i = junk i"
    unfolding first_row_index [OF dims(2)] k_def [symmetric] w_def [symmetric]
    by (auto simp: length_malloc nth_malloc)
  have "BMP_ReadFile fopen_rb junk (Some name) =
           Some (Returns (BMP_OK,
             Some \<lparr> Header = h,
                    Palette = (if BitsPerPixel h = 8 then Some (take BMP_PALETTE_SIZE f1) else None),
                    Data = d' \<rparr>))"
    using run BMP_ReadFile_rows [of fopen_rb name f h f1 junk] env sup pal
    by (simp add: payload)
  moreover have "d' ! ((unat (Height h) - 1 - j) * unat (Width h) + x)
                = payload ! (j * (unat (Width h) + row_padding (Width h)) + x)"
    if "j < unat (Height h)" "x < unat (Width h)" for j x
  proof -
    from that have "j \<le> k" by (simp add: H)
    from rows [OF this] that(2) show ?thesis by (simp only: w_def k_def)
  qed
  moreover have "d' ! i = junk i"
    if "unat (Height h) * unat (Width h) \<le> i" "i < unat (ImageDataSize h)" for i
    using rest [of i] that by (simp add: H w_def)
  ultimately show ?thesis using len by blast
qed

lemma decode_rows_truncated:
  assumes env: "fopen_rb name = Some f" "ReadHeader f = Some (h, f1)"
    and sup: "Magic h = 0x4D42" "BitsPerPixel h = 8 \<or> BitsPerPixel h = 24 \<or> BitsPerPixel h = 32"
      "CompressionType h = 0" "HeaderSize h = 40"
    and pal: "BitsPerPixel h = 8 \<longrightarrow> BMP_PALETTE_SIZE \<le> length f1"
    and payload: "payload = (if BitsPerPixel h = 8 then drop BMP_PALETTE_SIZE f1 else f1)"
    and dims: "Width h \<noteq> 0" "Height h \<noteq> 0" "unat (Height h) * unat (Width h) < 2 ^ 31"
      "unat (Height h) * unat (Width h) \<le> unat (ImageDataSize h)"
    and short: "length payload
                  < (unat (Height h) - 1) * (unat (Width h) + row_padding (Width h)) + unat (Width h)"
  shows "BMP_ReadFile fopen_rb junk (Some name) = Some (Returns (BMP_FILE_INVALID, None))"
proof -
  define k where "k = unat (Height h) - 1"
  define w where "w = unat (Width h)"
  have H: "unat (Height h) = Suc k"
    using dims(2) by (simp add: k_def unat_gt_0)
  have w: "0 < w" using dims(1) by (simp add: w_def unat_gt_0)
  have kw: "k * w < 2 ^ 31"
  proof -
    have "k * w \<le> Suc k * w" by simp
    with dims(3) show ?thesis by (simp add: H w_def)
  qed
  have "\<exists>d'. read_rows (Width h) (of_nat (k * unat (Width h)))
              (malloc junk (unat (ImageDataSize h))) payload
            = Some (Returns (BMP_FILE_INVALID, d'))"
  proof (rule read_rows_truncated)
    show "0 < unat (Width h)" using w by (simp only: w_def)
    show "Suc k * unat (Width h) \<le> length (malloc junk (unat (ImageDataSize h)))"
      using dims(4) by (simp only: H length_malloc)
    show "k * unat (Width h) < 2 ^ 31" using kw by (simp only: w_def)
    show "length payload < k * (unat (Width h) + row_padding (Width h)) + unat (Width h)"
      using short by (simp only: k_def)
  qed
  then obtain d' where
    run: "read_rows (Width h) ((Height h - 1) * Width h)
              (malloc junk (unat (ImageDataSize h))) payload = Some (Returns (BMP_FILE_INVALID, d'))"
    unfolding first_row_index [OF dims(2)] k_def [symmetric] by blast
  then show ?thesis
    using BMP_ReadFile_rows [of fopen_rb name f h f1 junk] env sup pal
    by (simp add: payload)
qed

section \<open>ReadHeader\<close>

text \<open>\<^verbatim>\<open>ReadHeader\<close> succeeds exactly on files of at least 54 bytes, and leaves the rest
  of the file after them.\<close>

lemma le_diff_pos: "0 < (k::nat) \<Longrightarrow> (k \<le> n - m) = (k + m \<le> n)"
  by arith

lemma Readuint16_t_cases:
  "Readuint16_t f = (if 2 \<le> length f
     then Some (push_bit 8 (ucast (f ! 1)) OR ucast (f ! 0), drop 2 f) else None)"
  by (auto simp: Readuint16_t_def fread_bytes_def min_def)

lemma Readuint32_t_cases:
  "Readuint32_t f = (if 4 \<le> length f
     then Some (push_bit 24 (ucast (f ! 3)) OR push_bit 16 (ucast (f ! 2))
                  OR push_bit 8 (ucast (f ! 1)) OR ucast (f ! 0), drop 4 f) else None)"
  by (auto simp: Readuint32_t_def fread_bytes_def min_def)

lemma ReadHeader_long: "54 \<le> length f \<Longrightarrow> \<exists>h. ReadHeader f = Some (h, drop 54 f)"
  by (simp add: ReadHeader_def Readuint16_t_cases Readuint32_t_cases le_diff_pos)

lemma ReadHeader_short: "length f < 54 \<Longrightarrow> ReadHeader f = None"
  by (simp add: ReadHeader_def Readuint16_t_cases Readuint32_t_cases le_diff_pos)

lemma ReadHeader_sample:
  "ReadHeader (sample_header_bytes w h depth sz @ rest) = Some (sample_header w h depth sz, rest)"
  by (simp add: sample_header_bytes_def sample_header_def ReadHeader_def Readuint16_t_def
      Readuint32_t_def fread_bytes_def)

section \<open>Failures of BMP_ReadFile\<close>

lemma row_with_padding: "unat W + row_padding W = RowStride_spec (unat W) 1"
proof -
  have m: "unat (W mod 4) = unat W mod 4" by (simp add: unat_mod)
  have z: "W mod 4 \<noteq> 0 \<longleftrightarrow> unat W mod 4 \<noteq> 0"
    using m by (metis unat_eq_0)
  have le: "W mod 4 \<le> 4"
    by (simp add: word_le_nat_alt m)
  have s: "unat (4 - W mod 4) = 4 - unat W mod 4"
    using le by (simp add: unat_sub m)
  have "unat W + row_padding W = unat W + (if unat W mod 4 \<noteq> 0 then 4 - unat W mod 4 else 0)"
    using z s by (auto simp: row_padding_def)
  then show ?thesis
    by (simp only: round_up_nat RowStride_spec_def) simp
qed

lemma BMP_ReadFile_no_partial_object:
  "BMP_ReadFile fopen_rb junk filename = Some (Returns (status, p)) \<Longrightarrow>
   status \<noteq> BMP_OK \<Longrightarrow> p = None"
  by (auto simp: BMP_ReadFile_def split: option.splits exec.splits if_splits prod.splits)

lemma BMP_ReadFile_header_checks:
  assumes "fopen_rb name = Some f"
  shows "ReadHeader f = None \<Longrightarrow>
           BMP_ReadFile fopen_rb junk (Some name) = Some (Returns (BMP_FILE_INVALID, None))"
    and "ReadHeader f = Some (h, f1) \<Longrightarrow> Magic h \<noteq> 0x4D42 \<Longrightarrow>
           BMP_ReadFile fopen_rb junk (Some name) = Some (Returns (BMP_FILE_INVALID, None))"
    and "ReadHeader f = Some (h, f1) \<Longrightarrow> Magic h = 0x4D42 \<Longrightarrow>
           (BitsPerPixel h \<noteq> 8 \<and> BitsPerPixel h \<noteq> 24 \<and> BitsPerPixel h \<noteq> 32)
             \<or> CompressionType h \<noteq> 0 \<or> HeaderSize h \<noteq> 40 \<Longrightarrow>
           BMP_ReadFile fopen_rb junk (Some name) = Some (Returns (BMP_FILE_NOT_SUPPORTED, None))"
    and "ReadHeader f = Some (h, f1) \<Longrightarrow> Magic h = 0x4D42 \<Longrightarrow> BitsPerPixel h = 8 \<Longrightarrow>
           CompressionType h = 0 \<Longrightarrow> HeaderSize h = 40 \<Longrightarrow> length f1 < BMP_PALETTE_SIZE \<Longrightarrow>
           BMP_ReadFile fopen_rb junk (Some name) = Some (Returns (BMP_FILE_INVALID, None))"
proof -
  show "ReadHeader f = None \<Longrightarrow>
           BMP_ReadFile fopen_rb junk (Some name) = Some (Returns (BMP_FILE_INVALID, None))"
    using assms by (simp add: BMP_ReadFile_def)
  show "ReadHeader f = Some (h, f1) \<Longrightarrow> Magic h \<noteq> 0x4D42 \<Longrightarrow>
           BMP_ReadFile fopen_rb junk (Some name) = Some (Returns (BMP_FILE_INVALID, None))"
    using assms by (simp add: BMP_ReadFile_def)
  show "ReadHeader f = Some (h, f1) \<Longrightarrow> Magic h = 0x4D42 \<Longrightarrow>
           (BitsPerPixel h \<noteq> 8 \<and> BitsPerPixel h \<noteq> 24 \<and> BitsPerPixel h \<noteq> 32)
             \<or> CompressionType h \<noteq> 0 \<or> HeaderSize h \<noteq> 40 \<Longrightarrow>
           BMP_ReadFile fopen_rb junk (Some name) = Some (Returns (BMP_FILE_NOT_SUPPORTED, None))"
    using assms by (auto simp: BMP_ReadFile_def)
  show "ReadHeader f = Some (h, f1) \<Longrightarrow> Magic h = 0x4D42 \<Longrightarrow> BitsPerPixel h = 8 \<Longrightarrow>
           CompressionType h = 0 \<Longrightarrow> HeaderSize h = 40 \<Longrightarrow> length f1 < BMP_PALETTE_SIZE \<Longrightarrow>
           BMP_ReadFile fopen_rb junk (Some name) = Some (Returns (BMP_FILE_INVALID, None))"
    using assms fread_palette_short [of f1 junk]
    by (auto simp: BMP_ReadFile_def)
qed

lemma malloc_stale: "malloc stale n = replicate n 0xAA"
  by (rule nth_equalityI) (simp_all add: malloc_def stale_def)

text \<open>Claim C4, as amended. On a file that can be opened, \<^verbatim>\<open>BMP_ReadFile\<close> reports
  \<^verbatim>\<open>BMP_FILE_INVALID\<close> when the file has fewer than the 54 bytes of the header, or when the
  header is read and its magic is not \<open>0x4D42\<close>. With the magic \<open>0x4D42\<close> it reports
  \<^verbatim>\<open>BMP_FILE_NOT_SUPPORTED\<close> when the depth is not 8, 24 or 32, or the compression is not 0,
  or the header size is not 40. For a depth-8 header that passes these tests it reports
  \<^verbatim>\<open>BMP_FILE_INVALID\<close> when fewer than 1024 bytes of palette follow the header. For such
  a header with a complete palette, and with \<open>Width \<noteq> 0\<close>, \<open>Height \<noteq> 0\<close>,
  \<open>Height * Width < 2\<^sup>3\<^sup>1\<close> and \<open>Height * Width \<le> ImageDataSize\<close>, it reports
  \<^verbatim>\<open>BMP_FILE_INVALID\<close> when fewer than \<open>(Height - 1) * RowStride + Width\<close> bytes follow the
  palette (the file ends before the \<open>Width\<close> bytes of some row), and otherwise it succeeds
  with the header of the file: the padding after the last row may be missing. Whenever
  \<^verbatim>\<open>BMP_ReadFile\<close> returns with a status that is not \<^verbatim>\<open>BMP_OK\<close>, the pointer returned is
  null.\<close>

theorem BMP_ReadFile_failures:
  assumes "fopen_rb name = Some f"
  shows
   "(length f < 54 \<longrightarrow>
       BMP_ReadFile fopen_rb junk (Some name) = Some (Returns (BMP_FILE_INVALID, None))) \<and>
    (ReadHeader f = Some (h, rest) \<longrightarrow>
       (Magic h \<noteq> 0x4D42 \<longrightarrow>
          BMP_ReadFile fopen_rb junk (Some name) = Some (Returns (BMP_FILE_INVALID, None))) \<and>
       (Magic h = 0x4D42 \<and>
        ((BitsPerPixel h \<noteq> 8 \<and> BitsPerPixel h \<noteq> 24 \<and> BitsPerPixel h \<noteq> 32)
           \<or> CompressionType h \<noteq> 0 \<or> HeaderSize h \<noteq> 40) \<longrightarrow>
          BMP_ReadFile fopen_rb junk (Some name)
            = Some (Returns (BMP_FILE_NOT_SUPPORTED, None))) \<and>
       (Magic h = 0x4D42 \<and> BitsPerPixel h = 8 \<and> CompressionType h = 0 \<and> HeaderSize h = 40 \<longrightarrow>
          (length rest < BMP_PALETTE_SIZE \<longrightarrow>
             BMP_ReadFile fopen_rb junk (Some name) = Some (Returns (BMP_FILE_INVALID, None))) \<and>
          (BMP_PALETTE_SIZE \<le> length rest \<and> Width h \<noteq> 0 \<and> Height h \<noteq> 0 \<and>
           unat (Height h) * unat (Width h) < 2 ^ 31 \<and>
           unat (Height h) * unat (Width h) \<le> unat (ImageDataSize h) \<longrightarrow>
             (length rest - BMP_PALETTE_SIZE
                < (unat (Height h) - 1) * RowStride_spec (unat (Width h)) 1 + unat (Width h) \<longrightarrow>
                BMP_ReadFile fopen_rb junk (Some name)
                  = Some (Returns (BMP_FILE_INVALID, None))) \<and>
             ((unat (Height h) - 1) * RowStride_spec (unat (Width h)) 1 + unat (Width h)
                \<le> length rest - BMP_PALETTE_SIZE \<longrightarrow>
                (\<exists>bm. BMP_ReadFile fopen_rb junk (Some name) = Some (Returns (BMP_OK, Some bm))
                   \<and> Header bm = h))))) \<and>
    (BMP_ReadFile fopen_rb junk (Some name) = Some (Returns (status, p)) \<and> status \<noteq> BMP_OK \<longrightarrow>
       p = None)"
proof (intro conjI impI)
  assume "length f < 54"
  then have "ReadHeader f = None" by (rule ReadHeader_short)
  then show "BMP_ReadFile fopen_rb junk (Some name) = Some (Returns (BMP_FILE_INVALID, None))"
    using BMP_ReadFile_header_checks(1) [of fopen_rb name f junk] assms by blast
next
  assume "ReadHeader f = Some (h, rest)" and "Magic h \<noteq> 0x4D42"
  then show "BMP_ReadFile fopen_rb junk (Some name) = Some (Returns (BMP_FILE_INVALID, None))"
    using BMP_ReadFile_header_checks(2) [of fopen_rb name f h rest junk] assms by blast
next
  assume "ReadHeader f = Some (h, rest)"
    and "Magic h = 0x4D42 \<and>
        ((BitsPerPixel h \<noteq> 8 \<and> BitsPerPixel h \<noteq> 24 \<and> BitsPerPixel h \<noteq> 32)
           \<or> CompressionType h \<noteq> 0 \<or> HeaderSize h \<noteq> 40)"
  then show "BMP_ReadFile fopen_rb junk (Some name) = Some (Returns (BMP_FILE_NOT_SUPPORTED, None))"
    using BMP_ReadFile_header_checks(3) [of fopen_rb name f h rest junk] assms by blast
next
  assume "ReadHeader f = Some (h, rest)"
    and "Magic h = 0x4D42 \<and> BitsPerPixel h = 8 \<and> CompressionType h = 0 \<and> HeaderSize h = 40"
    and "length rest < BMP_PALETTE_SIZE"
  then show "BMP_ReadFile fopen_rb junk (Some name) = Some (Returns (BMP_FILE_INVALID, None))"
    using BMP_ReadFile_header_checks(4) [of fopen_rb name f h rest junk] assms by blast
next
  assume rh: "ReadHeader f = Some (h, rest)"
    and sup: "Magic h = 0x4D42 \<and> BitsPerPixel h = 8 \<and> CompressionType h = 0 \<and> HeaderSize h = 40"
    and dims: "BMP_PALETTE_SIZE \<le> length rest \<and> Width h \<noteq> 0 \<and> Height h \<noteq> 0 \<and>
           unat (Height h) * unat (Width h) < 2 ^ 31 \<and>
           unat (Height h) * unat (Width h) \<le> unat (ImageDataSize h)"
    and short: "length rest - BMP_PALETTE_SIZE
                < (unat (Height h) - 1) * RowStride_spec (unat (Width h)) 1 + unat (Width h)"
  show "BMP_ReadFile fopen_rb junk (Some name) = Some (Returns (BMP_FILE_INVALID, None))"
  proof (rule decode_rows_truncated [of fopen_rb name f h rest "drop BMP_PALETTE_SIZE rest"])
    show "length (drop BMP_PALETTE_SIZE rest)
        < (unat (Height h) - 1) * (unat (Width h) + row_padding (Width h)) + unat (Width h)"
      using short by (simp only: row_with_padding length_drop)
  qed (use assms rh sup dims in simp_all)
next
  assume rh: "ReadHeader f = Some (h, rest)"
    and sup: "Magic h = 0x4D42 \<and> BitsPerPixel h = 8 \<and> CompressionType h = 0 \<and> HeaderSize h = 40"
    and dims: "BMP_PALETTE_SIZE \<le> length rest \<and> Width h \<noteq> 0 \<and> Height h \<noteq> 0 \<and>
           unat (Height h) * unat (Width h) < 2 ^ 31 \<and>
           unat (Height h) * unat (Width h) \<le> unat (ImageDataSize h)"
    and enough: "(unat (Height h) - 1) * RowStride_spec (unat (Width h)) 1 + unat (Width h)
                \<le> length rest - BMP_PALETTE_SIZE"
  have "\<exists>data. BMP_ReadFile fopen_rb junk (Some name) =
           Some (Returns (BMP_OK,
             Some \<lparr> Header = h,
                    Palette = (if BitsPerPixel h = 8 then Some (take BMP_PALETTE_SIZE rest) else None),
                    Data = data \<rparr>)) \<and>
           length data = unat (ImageDataSize h) \<and>
           (\<forall>j x. j < unat (Height h) \<longrightarrow> x < unat (Width h) \<longrightarrow>
              data ! ((unat (Height h) - 1 - j) * unat (Width h) + x)
                = drop BMP_PALETTE_SIZE rest ! (j * (unat (Width h) + row_padding (Width h)) + x)) \<and>
           (\<forall>i. unat (Height h) * unat (Width h) \<le> i \<longrightarrow> i < unat (ImageDataSize h) \<longrightarrow>
              data ! i = junk i)"
  proof (rule decode_rows_complete [of fopen_rb name f h rest "drop BMP_PALETTE_SIZE rest"])
    show "(unat (Height h) - 1) * (unat (Width h) + row_padding (Width h)) + unat (Width h)
        \<le> length (drop BMP_PALETTE_SIZE rest)"
      using enough by (simp only: row_with_padding length_drop)
  qed (use assms rh sup dims in simp_all)
  then show "\<exists>bm. BMP_ReadFile fopen_rb junk (Some name) = Some (Returns (BMP_OK, Some bm))
                   \<and> Header bm = h"
    by auto
next
  assume "BMP_ReadFile fopen_rb junk (Some name) = Some (Returns (status, p)) \<and> status \<noteq> BMP_OK"
  then show "p = None"
    using BMP_ReadFile_no_partial_object [of fopen_rb junk "Some name" status p] by blast
qed

theorem BMP_ReadFile_failures_witness:
  "BMP_ReadFile (one_file [0x42, 0x4D, 0]) stale (Some ''a.bmp'')
     = Some (Returns (BMP_FILE_INVALID, None)) \<and>
   BMP_ReadFile (one_file ((sample_header_bytes 4 2 8 8)[0 := 0x41] @ replicate 1024 0
                            @ [1, 2, 3, 4, 5, 6, 7, 8])) stale (Some ''a.bmp'')
     = Some (Returns (BMP_FILE_INVALID, None)) \<and>
   BMP_ReadFile (one_file (sample_header_bytes 4 2 16 16 @ [1, 2, 3, 4, 5, 6, 7, 8, 1, 2, 3, 4, 5, 6, 7, 8]))
      stale (Some ''a.bmp'')
     = Some (Returns (BMP_FILE_NOT_SUPPORTED, None)) \<and>
   BMP_ReadFile (one_file (sample_header_bytes 4 2 8 8 @ replicate 1023 0)) stale (Some ''a.bmp'')
     = Some (Returns (BMP_FILE_INVALID, None)) \<and>
   BMP_ReadFile (one_file (sample_header_bytes 4 2 8 8 @ replicate 1024 0 @ [1, 2, 3, 4, 5, 6, 7]))
      stale (Some ''a.bmp'')
     = Some (Returns (BMP_FILE_INVALID, None)) \<and>
   (\<exists>bm. BMP_ReadFile (one_file (sample_header_bytes 4 2 8 8 @ replicate 1024 0
                                    @ [1, 2, 3, 4, 5, 6, 7, 8])) stale (Some ''a.bmp'')
           = Some (Returns (BMP_OK, Some bm)) \<and> Header bm = sample_header 4 2 8 8)"
proof -
  have h: "Magic (sample_header 4 2 8 8) = 0x4D42" "BitsPerPixel (sample_header 4 2 8 8) = 8"
    "CompressionType (sample_header 4 2 8 8) = 0" "HeaderSize (sample_header 4 2 8 8) = 40"
    "Width (sample_header 4 2 8 8) = 4" "Height (sample_header 4 2 8 8) = 2"
    "ImageDataSize (sample_header 4 2 8 8) = 8"
    "Magic (sample_header 4 2 16 16) = 0x4D42" "BitsPerPixel (sample_header 4 2 16 16) = 16"
    by (simp_all add: sample_header_def)
  have bad_magic:
    "ReadHeader ((sample_header_bytes 4 2 8 8)[0 := 0x41] @ replicate 1024 0 @ [1, 2, 3, 4, 5, 6, 7, 8])
       = Some ((sample_header 4 2 8 8)\<lparr>Magic := 0x4D41\<rparr>, replicate 1024 0 @ [1, 2, 3, 4, 5, 6, 7, 8])"
    by (simp add: sample_header_bytes_def sample_header_def ReadHeader_def Readuint16_t_def
        Readuint32_t_def fread_bytes_def)
  define full where "full = replicate 1024 (0 :: byte) @ [1, 2, 3, 4, 5, 6, 7, 8]"
  have len: "length full = 1032" "length (replicate 1024 (0 :: byte) @ [1, 2, 3, 4, 5, 6, 7]) = 1031"
    by (simp_all add: full_def)
  have w1: "BMP_ReadFile (one_file [0x42, 0x4D, 0]) stale (Some ''a.bmp'')
     = Some (Returns (BMP_FILE_INVALID, None))"
    using BMP_ReadFile_failures [where fopen_rb = "one_file [0x42, 0x4D, 0]" and name = "''a.bmp''"
         and f = "[0x42, 0x4D, 0]" and junk = stale]
    by (simp add: one_file_def)
  have w2: "BMP_ReadFile (one_file ((sample_header_bytes 4 2 8 8)[0 := 0x41] @ full))
       stale (Some ''a.bmp'') = Some (Returns (BMP_FILE_INVALID, None))"
    using BMP_ReadFile_failures [where fopen_rb = "one_file ((sample_header_bytes 4 2 8 8)[0 := 0x41]
            @ full)" and name = "''a.bmp''"
         and f = "(sample_header_bytes 4 2 8 8)[0 := 0x41] @ full"
         and h = "(sample_header 4 2 8 8)\<lparr>Magic := 0x4D41\<rparr>"
         and rest = full and junk = stale]
    by (simp add: one_file_def bad_magic [folded full_def])
  have w3: "BMP_ReadFile (one_file (sample_header_bytes 4 2 16 16
            @ [1, 2, 3, 4, 5, 6, 7, 8, 1, 2, 3, 4, 5, 6, 7, 8])) stale (Some ''a.bmp'')
     = Some (Returns (BMP_FILE_NOT_SUPPORTED, None))"
    using BMP_ReadFile_failures [where fopen_rb = "one_file (sample_header_bytes 4 2 16 16
            @ [1, 2, 3, 4, 5, 6, 7, 8, 1, 2, 3, 4, 5, 6, 7, 8])" and name = "''a.bmp''"
         and f = "sample_header_bytes 4 2 16 16 @ [1, 2, 3, 4, 5, 6, 7, 8, 1, 2, 3, 4, 5, 6, 7, 8]"
         and h = "sample_header 4 2 16 16"
         and rest = "[1, 2, 3, 4, 5, 6, 7, 8, 1, 2, 3, 4, 5, 6, 7, 8]" and junk = stale]
    by (simp add: one_file_def ReadHeader_sample h)
  have w4: "BMP_ReadFile (one_file (sample_header_bytes 4 2 8 8 @ replicate 1023 0))
       stale (Some ''a.bmp'') = Some (Returns (BMP_FILE_INVALID, None))"
    using BMP_ReadFile_failures [where fopen_rb = "one_file (sample_header_bytes 4 2 8 8 @ replicate 1023 0)"
         and name = "''a.bmp''" and f = "sample_header_bytes 4 2 8 8 @ replicate 1023 0"
         and h = "sample_header 4 2 8 8" and rest = "replicate 1023 0" and junk = stale]
    by (simp add: one_file_def ReadHeader_sample h BMP_PALETTE_SIZE_def)
  have w5: "BMP_ReadFile (one_file (sample_header_bytes 4 2 8 8 @ replicate 1024 0
            @ [1, 2, 3, 4, 5, 6, 7])) stale (Some ''a.bmp'')
     = Some (Returns (BMP_FILE_INVALID, None))"
    using BMP_ReadFile_failures [where fopen_rb = "one_file (sample_header_bytes 4 2 8 8 @ replicate 1024 0
            @ [1, 2, 3, 4, 5, 6, 7])" and name = "''a.bmp''"
         and f = "sample_header_bytes 4 2 8 8 @ replicate 1024 0 @ [1, 2, 3, 4, 5, 6, 7]"
         and h = "sample_header 4 2 8 8"
         and rest = "replicate 1024 0 @ [1, 2, 3, 4, 5, 6, 7]" and junk = stale]
    by (simp add: one_file_def ReadHeader_sample h RowStride_spec_def BMP_PALETTE_SIZE_def)
  have w6: "\<exists>bm. BMP_ReadFile (one_file (sample_header_bytes 4 2 8 8 @ full)) stale (Some ''a.bmp'')
           = Some (Returns (BMP_OK, Some bm)) \<and> Header bm = sample_header 4 2 8 8"
    using BMP_ReadFile_failures [where fopen_rb = "one_file (sample_header_bytes 4 2 8 8 @ full)"
         and name = "''a.bmp''" and f = "sample_header_bytes 4 2 8 8 @ full"
         and h = "sample_header 4 2 8 8" and rest = full and junk = stale]
    by (simp add: one_file_def ReadHeader_sample h RowStride_spec_def len BMP_PALETTE_SIZE_def)
  from w1 w2 w3 w4 w5 w6 show ?thesis by (simp only: full_def)
qed

text \<open>The claim as stated fails on a depth-8 file of width 1 and height 1 that declares 4
  bytes of image data and ends after the one pixel byte: the read of the three padding
  bytes is short, and the file is decoded; the bytes of the buffer that no row fills keep
  what the new buffer held.\<close>

theorem short_padding_counterexample:
  "BMP_ReadFile (one_file (sample_header_bytes 1 1 8 4 @ replicate 1024 0 @ [7]))
     stale (Some ''a.bmp'')
   = Some (Returns (BMP_OK, Some \<lparr> Header = sample_header 1 1 8 4,
        Palette = Some (replicate 1024 0), Data = [7, 0xAA, 0xAA, 0xAA] \<rparr>))"
proof -
  have rows: "read_rows 1 0 (malloc stale 4) [7] = Some (Returns (BMP_OK, [7, 0xAA, 0xAA, 0xAA]))"
    apply (subst read_rows.simps)
    apply (simp add: fread_buf_def fread_bytes_def malloc_stale eval_nat_numeral)
    apply (subst read_rows.simps)
    apply simp
    done
  show ?thesis
    using BMP_ReadFile_rows [of "one_file (sample_header_bytes 1 1 8 4 @ replicate 1024 0 @ [7])"
       "''a.bmp''" _ "sample_header 1 1 8 4" "replicate 1024 0 @ [7]" stale]
    by (simp add: one_file_def ReadHeader_sample) (simp add: sample_header_def BMP_PALETTE_SIZE_def rows)
qed

text \<open>The bounds on \<open>Height * Width\<close> in the amended claim are needed. With a width of
  \<open>0x80000000\<close> and a height of 2 the loop counter starts negative as an \<^verbatim>\<open>int\<close>: no row is
  read, and the file is decoded with the buffer as \<^verbatim>\<open>malloc\<close> left it, however short the
  file is.\<close>

lemma ReadHeader_wide_width:
  "ReadHeader ((sample_header_bytes 0 2 8 4)[21 := 0x80] @ replicate 1024 0 @ [1, 2, 3, 4])
     = Some ((sample_header 0 2 8 4)\<lparr>Width := 0x80000000\<rparr>, replicate 1024 0 @ [1, 2, 3, 4])"
  by (simp add: sample_header_bytes_def sample_header_def ReadHeader_def Readuint16_t_def
      Readuint32_t_def fread_bytes_def)

lemma decode_wide_width_reads_no_row:
  "BMP_ReadFile (one_file ((sample_header_bytes 0 2 8 4)[21 := 0x80] @ replicate 1024 0
                            @ [1, 2, 3, 4])) stale (Some ''a.bmp'')
   = Some (Returns (BMP_OK, Some \<lparr> Header = (sample_header 0 2 8 4)\<lparr>Width := 0x80000000\<rparr>,
        Palette = Some (replicate 1024 0), Data = [0xAA, 0xAA, 0xAA, 0xAA] \<rparr>))"
proof -
  have neg: "\<not> 0 \<le> sint (0x80000000 :: 32 word)" by simp
  have rows: "read_rows 0x80000000 0x80000000 (malloc stale 4) [1, 2, 3, 4]
      = Some (Returns (BMP_OK, [0xAA, 0xAA, 0xAA, 0xAA]))"
    apply (subst read_rows.simps)
    apply (simp only: neg if_False)
    apply (simp add: malloc_stale eval_nat_numeral)
    done
  show ?thesis
    using BMP_ReadFile_rows [of "one_file ((sample_header_bytes 0 2 8 4)[21 := 0x80]
          @ replicate 1024 0 @ [1, 2, 3, 4])"
       "''a.bmp''" _ "(sample_header 0 2 8 4)\<lparr>Width := 0x80000000\<rparr>"
       "replicate 1024 0 @ [1, 2, 3, 4]" stale]
    by (simp add: one_file_def ReadHeader_wide_width)
      (simp add: sample_header_def BMP_PALETTE_SIZE_def rows)
qed

text \<open>With \<open>Height * Width\<close> above \<open>ImageDataSize\<close> the first row that the loop reads is
  stored past the end of the pixel buffer: a width of 4 and a height of 2 with 4 bytes of
  image data declared.\<close>

lemma decode_small_image_size_overruns:
  "BMP_ReadFile (one_file (sample_header_bytes 4 2 8 4 @ replicate 1024 0
                            @ [1, 2, 3, 4, 5, 6, 7, 8])) stale (Some ''a.bmp'')
   = Some Undefined"
proof -
  have rows: "read_rows 4 4 (malloc stale 4) [1, 2, 3, 4, 5, 6, 7, 8] = Some Undefined"
    apply (subst read_rows.simps)
    apply (simp add: fread_buf_def fread_bytes_def malloc_stale)
    done
  show ?thesis
    using BMP_ReadFile_rows [of "one_file (sample_header_bytes 4 2 8 4 @ replicate 1024 0
          @ [1, 2, 3, 4, 5, 6, 7, 8])"
       "''a.bmp''" _ "sample_header 4 2 8 4" "replicate 1024 0 @ [1, 2, 3, 4, 5, 6, 7, 8]" stale]
    by (simp add: one_file_def ReadHeader_sample)
      (simp add: sample_header_def BMP_PALETTE_SIZE_def rows)
qed

section \<open>Where BMP_ReadFile stores the rows\<close>

lemma row_padding_aligned: "W mod 4 = 0 \<Longrightarrow> row_padding W = 0"
  by (simp add: row_padding_def)

lemma sample_decode_4x2:
  "BMP_ReadFile (one_file (sample_header_bytes 4 2 8 8 @ replicate 1024 0 @ [1, 2, 3, 4, 5, 6, 7, 8]))
     stale (Some ''a.bmp'')
   = Some (Returns (BMP_OK, Some \<lparr> Header = sample_header 4 2 8 8,
        Palette = Some (replicate 1024 0), Data = [5, 6, 7, 8, 1, 2, 3, 4] \<rparr>))"
proof -
  have m: "malloc stale 8 = [0xAA, 0xAA, 0xAA, 0xAA, 0xAA, 0xAA, 0xAA, 0xAA]"
    by (simp add: malloc_stale eval_nat_numeral)
  have rows: "read_rows 4 4 (malloc stale 8) [1, 2, 3, 4, 5, 6, 7, 8]
      = Some (Returns (BMP_OK, [5, 6, 7, 8, 1, 2, 3, 4]))"
    apply (subst read_rows.simps)
    apply (simp add: fread_buf_def fread_bytes_def m)
    apply (subst read_rows.simps)
    apply (simp add: fread_buf_def fread_bytes_def)
    apply (subst read_rows.simps)
    apply simp
    done
  show ?thesis
    using BMP_ReadFile_rows [of "one_file (sample_header_bytes 4 2 8 8 @ replicate 1024 0 @ [1, 2, 3, 4, 5, 6, 7, 8])"
       "''a.bmp''" _ "sample_header 4 2 8 8" "replicate 1024 0 @ [1, 2, 3, 4, 5, 6, 7, 8]" stale]
    by (simp add: one_file_def ReadHeader_sample) (simp add: sample_header_def BMP_PALETTE_SIZE_def rows)
qed

text \<open>Claim C2, as amended. For a depth-8 file with a valid 40-byte info header, no
  compression, a width that is a multiple of 4 (so that \<open>RowStride = Width\<close> and rows have
  no padding), \<open>ImageDataSize = RowStride * Height\<close> and \<open>Height * Width < 2\<^sup>3\<^sup>1\<close>, a successful
  \<^verbatim>\<open>BMP_ReadFile\<close> returns the header and the palette as read and a buffer of
  \<open>ImageDataSize\<close> bytes in which the \<open>j\<close>-th row of the file (\<open>j = 0\<close> the first row after
  the palette) lies at offset \<open>(Height - 1 - j) * RowStride\<close>: the rows are stored in the
  reverse of their order in the file.\<close>

theorem decoded_rows_reversed:
  assumes env: "fopen_rb name = Some f" and hdr: "ReadHeader f = Some (h, rest)"
    and sup: "Magic h = 0x4D42" "BitsPerPixel h = 8" "CompressionType h = 0" "HeaderSize h = 40"
    and dims: "Width h \<noteq> 0" "Height h \<noteq> 0" "Width h mod 4 = 0"
      "unat (Height h) * unat (Width h) < 2 ^ 31"
    and size: "unat (ImageDataSize h) = RowStride_spec (unat (Width h)) 1 * unat (Height h)"
    and ok: "BMP_ReadFile fopen_rb junk (Some name) = Some (Returns (BMP_OK, Some bm))"
  shows "Header bm = h \<and> Palette bm = Some (take BMP_PALETTE_SIZE rest) \<and>
         length (Data bm) = unat (ImageDataSize h) \<and>
         (\<forall>j x. j < unat (Height h) \<and> x < unat (Width h) \<longrightarrow>
            Data bm ! ((unat (Height h) - 1 - j) * RowStride_spec (unat (Width h)) 1 + x)
              = drop BMP_PALETTE_SIZE rest ! (j * RowStride_spec (unat (Width h)) 1 + x))"
proof -
  have stride: "RowStride_spec (unat (Width h)) 1 = unat (Width h)"
    using row_with_padding [of "Width h"] dims(3) by (simp add: row_padding_aligned)
  have fits: "unat (Height h) * unat (Width h) \<le> unat (ImageDataSize h)"
    using size stride by (simp add: mult.commute)
  have pal: "BMP_PALETTE_SIZE \<le> length rest"
  proof (rule ccontr)
    assume "\<not> BMP_PALETTE_SIZE \<le> length rest"
    then have "BMP_ReadFile fopen_rb junk (Some name) = Some (Returns (BMP_FILE_INVALID, None))"
      using BMP_ReadFile_header_checks(4) [of fopen_rb name f h rest junk] env hdr sup by simp
    with ok show False by simp
  qed
  have enough: "(unat (Height h) - 1) * (unat (Width h) + row_padding (Width h)) + unat (Width h)
      \<le> length (drop BMP_PALETTE_SIZE rest)"
  proof (rule ccontr)
    assume "\<not> ?thesis"
    then have short: "length (drop BMP_PALETTE_SIZE rest)
        < (unat (Height h) - 1) * (unat (Width h) + row_padding (Width h)) + unat (Width h)"
      by simp
    have "BMP_ReadFile fopen_rb junk (Some name) = Some (Returns (BMP_FILE_INVALID, None))"
      by (rule decode_rows_truncated [of fopen_rb name f h rest "drop BMP_PALETTE_SIZE rest"])
         (use env hdr sup pal dims fits short in simp_all)
    with ok show False by simp
  qed
  have "\<exists>data. BMP_ReadFile fopen_rb junk (Some name) =
           Some (Returns (BMP_OK,
             Some \<lparr> Header = h,
                    Palette = (if BitsPerPixel h = 8 then Some (take BMP_PALETTE_SIZE rest) else None),
                    Data = data \<rparr>)) \<and>
           length data = unat (ImageDataSize h) \<and>
           (\<forall>j x. j < unat (Height h) \<longrightarrow> x < unat (Width h) \<longrightarrow>
              data ! ((unat (Height h) - 1 - j) * unat (Width h) + x)
                = drop BMP_PALETTE_SIZE rest ! (j * (unat (Width h) + row_padding (Width h)) + x)) \<and>
           (\<forall>i. unat (Height h) * unat (Width h) \<le> i \<longrightarrow> i < unat (ImageDataSize h) \<longrightarrow>
              data ! i = junk i)"
    by (rule decode_rows_complete [of fopen_rb name f h rest "drop BMP_PALETTE_SIZE rest"])
       (use env hdr sup pal dims fits enough in simp_all)
  then obtain data where
    run: "BMP_ReadFile fopen_rb junk (Some name) =
           Some (Returns (BMP_OK,
             Some \<lparr> Header = h, Palette = Some (take BMP_PALETTE_SIZE rest), Data = data \<rparr>))"
    and len: "length data = unat (ImageDataSize h)"
    and rows: "\<And>j x. j < unat (Height h) \<Longrightarrow> x < unat (Width h) \<Longrightarrow>
              data ! ((unat (Height h) - 1 - j) * unat (Width h) + x)
                = drop BMP_PALETTE_SIZE rest ! (j * unat (Width h) + x)"
    using sup(2) dims(3) by (auto simp: row_padding_aligned)
  from run ok have bm: "bm = \<lparr> Header = h, Palette = Some (take BMP_PALETTE_SIZE rest), Data = data \<rparr>"
    by simp
  show ?thesis
    unfolding stride bm using len rows by simp
qed

theorem decoded_rows_reversed_witness:
  "Data \<lparr> Header = sample_header 4 2 8 8, Palette = Some (replicate 1024 0),
          Data = [5, 6, 7, 8, 1, 2, 3, 4] \<rparr> ! ((2 - 1 - 0) * 4 + 1)
     = drop 1024 (replicate 1024 0 @ [1, 2, 3, 4, 5, 6, 7, 8]) ! (0 * 4 + 1) \<and>
   Data \<lparr> Header = sample_header 4 2 8 8, Palette = Some (replicate 1024 0),
          Data = [5, 6, 7, 8, 1, 2, 3, 4] \<rparr> ! ((2 - 1 - 1) * 4 + 3)
     = drop 1024 (replicate 1024 0 @ [1, 2, 3, 4, 5, 6, 7, 8]) ! (1 * 4 + 3)"
proof -
  define full where "full = replicate 1024 (0 :: byte) @ [1, 2, 3, 4, 5, 6, 7, 8]"
  define bm where "bm = \<lparr> Header = sample_header 4 2 8 8, Palette = Some (replicate 1024 0),
          Data = [5, 6, 7, 8, 1, 2, 3, 4] \<rparr>"
  have h: "Magic (sample_header 4 2 8 8) = 0x4D42" "BitsPerPixel (sample_header 4 2 8 8) = 8"
    "CompressionType (sample_header 4 2 8 8) = 0" "HeaderSize (sample_header 4 2 8 8) = 40"
    "Width (sample_header 4 2 8 8) = 4" "Height (sample_header 4 2 8 8) = 2"
    "ImageDataSize (sample_header 4 2 8 8) = 8"
    by (simp_all add: sample_header_def)
  have d: "unat (Height (sample_header 4 2 8 8)) = 2" "unat (Width (sample_header 4 2 8 8)) = 4"
    "Width (sample_header 4 2 8 8) \<noteq> 0" "Height (sample_header 4 2 8 8) \<noteq> 0"
    "Width (sample_header 4 2 8 8) mod 4 = 0"
    "unat (Height (sample_header 4 2 8 8)) * unat (Width (sample_header 4 2 8 8)) < 2 ^ 31"
    "unat (ImageDataSize (sample_header 4 2 8 8))
       = RowStride_spec (unat (Width (sample_header 4 2 8 8))) 1
           * unat (Height (sample_header 4 2 8 8))"
    "RowStride_spec (unat (Width (sample_header 4 2 8 8))) 1 = 4"
    by (simp_all add: h RowStride_spec_def)
  have stride: "RowStride_spec 4 1 = 4"
    by (simp add: RowStride_spec_def)
  have env: "one_file (sample_header_bytes 4 2 8 8 @ full) ''a.bmp''
      = Some (sample_header_bytes 4 2 8 8 @ full)"
    by (simp add: one_file_def)
  have rh: "ReadHeader (sample_header_bytes 4 2 8 8 @ full) = Some (sample_header 4 2 8 8, full)"
    by (rule ReadHeader_sample)
  have ok: "BMP_ReadFile (one_file (sample_header_bytes 4 2 8 8 @ full)) stale (Some ''a.bmp'')
      = Some (Returns (BMP_OK, Some bm))"
    using sample_decode_4x2 by (simp only: full_def bm_def)
  have payload: "drop BMP_PALETTE_SIZE full = [1, 2, 3, 4, 5, 6, 7, 8]"
    by (simp add: full_def BMP_PALETTE_SIZE_def)
  have "\<forall>j x. j < 2 \<and> x < 4 \<longrightarrow>
      Data bm ! ((2 - 1 - j) * 4 + x) = [1, 2, 3, 4, 5, 6, 7, 8] ! (j * 4 + x)"
    using decoded_rows_reversed [where fopen_rb = "one_file (sample_header_bytes 4 2 8 8 @ full)"
        and junk = stale, OF env rh h(1) h(2) h(3) h(4) d(3) d(4) d(5) d(6) d(7) ok]
    unfolding d payload stride by blast
  then have rows: "\<And>j x. j < 2 \<Longrightarrow> x < 4 \<Longrightarrow>
      Data bm ! ((2 - 1 - j) * 4 + x) = [1, 2, 3, 4, 5, 6, 7, 8] ! (j * 4 + x)"
    by blast
  have "Data bm ! ((2 - 1 - 0) * 4 + 1) = [1, 2, 3, 4, 5, 6, 7, 8] ! (0 * 4 + 1)"
    by (rule rows) simp_all
  moreover have "Data bm ! ((2 - 1 - 1) * 4 + 3) = [1, 2, 3, 4, 5, 6, 7, 8] ! (1 * 4 + 3)"
    by (rule rows) simp_all
  ultimately show ?thesis
    using payload by (simp add: bm_def full_def BMP_PALETTE_SIZE_def)
qed

text \<open>The claim as stated puts the first row of the file (the bottom row of a bottom-up
  file, \<open>y = Height - 1\<close>) at buffer offset \<open>(Height - 1 - y) * RowStride = 0\<close>. For a
  depth-8 file of width 4 and height 2 with the rows \<open>1, 2, 3, 4\<close> and \<open>5, 6, 7, 8\<close> the
  buffer starts with the second row.\<close>

theorem decode_keeps_file_order_counterexample:
  "BMP_ReadFile (one_file (sample_header_bytes 4 2 8 8 @ replicate 1024 0 @ [1, 2, 3, 4, 5, 6, 7, 8]))
     stale (Some ''a.bmp'')
   = Some (Returns (BMP_OK, Some \<lparr> Header = sample_header 4 2 8 8,
        Palette = Some (replicate 1024 0), Data = [5, 6, 7, 8, 1, 2, 3, 4] \<rparr>)) \<and>
   Height (sample_header 4 2 8 8) = 2 \<and>
   RowStride_spec (unat (Width (sample_header 4 2 8 8))) 1 = 4"
  using sample_decode_4x2 by (simp add: sample_header_def RowStride_spec_def)

section \<open>Header invariants\<close>

text \<open>With a width of 0 the row loop of \<^verbatim>\<open>BMP_ReadFile\<close> starts at index 0 and never leaves
  it: it returns nothing.\<close>

lemma read_rows_zero_width:
  assumes "read_rows w idx d f = Some y"
  shows "\<not> (w = 0 \<and> idx = 0)"
proof (rule read_rows.raw_induct [where P = "\<lambda>w idx d f y. \<not> (w = 0 \<and> idx = 0)", OF _ assms],
    goal_cases)
  case (1 rr w idx d f y)
  show ?case
  proof
    assume z: "w = 0 \<and> idx = 0"
    then have "rr 0 0 d f = Some y"
      using 1(2) by (simp add: fread_buf_def fread_bytes_def)
    from 1(1) [OF this] show False by simp
  qed
qed

lemma BMP_ReadFile_fields:
  assumes "BMP_ReadFile fopen_rb junk filename = Some (Returns (BMP_OK, Some bm))"
  shows "Magic (Header bm) = 0x4D42" "HeaderSize (Header bm) = 40"
    "CompressionType (Header bm) = 0"
    "BitsPerPixel (Header bm) = 8 \<or> BitsPerPixel (Header bm) = 24 \<or> BitsPerPixel (Header bm) = 32"
    "Width (Header bm) \<noteq> 0"
proof -
  from assms obtain h palette data f2 where
    bm: "bm = \<lparr> Header = h, Palette = palette, Data = data \<rparr>"
    and h: "Magic h = 0x4D42" "HeaderSize h = 40" "CompressionType h = 0"
      "BitsPerPixel h = 8 \<or> BitsPerPixel h = 24 \<or> BitsPerPixel h = 32"
    and rows: "read_rows (Width h) ((Height h - 1) * Width h)
                 (malloc junk (unat (ImageDataSize h))) f2 = Some (Returns (BMP_OK, data))"
    by (auto simp: BMP_ReadFile_def split: option.splits exec.splits if_splits prod.splits)
  from h show "Magic (Header bm) = 0x4D42" "HeaderSize (Header bm) = 40"
    "CompressionType (Header bm) = 0"
    "BitsPerPixel (Header bm) = 8 \<or> BitsPerPixel (Header bm) = 24 \<or> BitsPerPixel (Header bm) = 32"
    by (simp_all add: bm)
  from read_rows_zero_width [OF rows] show "Width (Header bm) \<noteq> 0"
    by (auto simp: bm)
qed

lemma setters_keep_header:
  "BMP_SetPixelRGB (Some bm) x y r g b = Returns (st, Some bm') \<Longrightarrow> Header bm' = Header bm"
  "BMP_SetPixelIndex (Some bm) x y v = Returns (st, Some bm') \<Longrightarrow> Header bm' = Header bm"
  "BMP_SetPaletteColor (Some bm) i r g b = Returns (st, Some bm') \<Longrightarrow> Header bm' = Header bm"
  by (auto simp: BMP_SetPixelRGB_def BMP_SetPixelIndex_def BMP_SetPaletteColor_def store_def Let_def
      split: if_splits)

lemma sample_decode_no_rows:
  "BMP_ReadFile (one_file (sample_header_bytes 1 0 8 7 @ replicate 1024 0)) stale (Some ''a.bmp'')
   = Some (Returns (BMP_OK, Some \<lparr> Header = sample_header 1 0 8 7,
        Palette = Some (replicate 1024 0), Data = replicate 7 0xAA \<rparr>))"
proof -
  have rows: "read_rows 1 (- 1) d [] = Some (Returns (BMP_OK, d))" for d
    by (subst read_rows.simps) simp
  show ?thesis
    using BMP_ReadFile_rows [of "one_file (sample_header_bytes 1 0 8 7 @ replicate 1024 0)"
       "''a.bmp''" _ "sample_header 1 0 8 7" "replicate 1024 0" stale]
    by (simp add: one_file_def ReadHeader_sample)
       (simp add: sample_header_def BMP_PALETTE_SIZE_def rows malloc_stale)
qed

text \<open>Claim C6, as amended. Every bitmap returned by a successful \<^verbatim>\<open>BMP_Create\<close> has
  \<open>HeaderSize = 40\<close>, \<open>CompressionType = 0\<close>, a depth of 8, 24 or 32, a width and a height
  that are not 0, \<open>DataOffset = 54\<close> plus 1024 when the depth is 8, and
  \<open>ImageDataSize = RowStride * Height\<close> modulo \<open>2\<^sup>3\<^sup>2\<close>. Every bitmap returned by a successful
  \<^verbatim>\<open>BMP_ReadFile\<close> has \<open>HeaderSize = 40\<close>, \<open>CompressionType = 0\<close>, a depth of 8, 24 or 32 and a
  width that is not 0. The three writers \<^verbatim>\<open>BMP_SetPixelRGB\<close>, \<^verbatim>\<open>BMP_SetPixelIndex\<close> and
  \<^verbatim>\<open>BMP_SetPaletteColor\<close> leave the header as it is (the readers are given the bitmap and
  return only a status and their outputs).\<close>

theorem header_invariants:
  "(BMP_Create width height depth = (BMP_OK, Some bm) \<longrightarrow>
      HeaderSize (Header bm) = 40 \<and> CompressionType (Header bm) = 0 \<and>
      (BitsPerPixel (Header bm) = 8 \<or> BitsPerPixel (Header bm) = 24
         \<or> BitsPerPixel (Header bm) = 32) \<and>
      Width (Header bm) \<noteq> 0 \<and> Height (Header bm) \<noteq> 0 \<and>
      unat (DataOffset (Header bm)) = 54 + (if BitsPerPixel (Header bm) = 8 then 1024 else 0) \<and>
      unat (ImageDataSize (Header bm))
        = (RowStride_spec (unat (Width (Header bm))) (unat (BitsPerPixel (Header bm)) div 8)
             * unat (Height (Header bm))) mod 2 ^ 32) \<and>
   (BMP_ReadFile fopen_rb junk filename = Some (Returns (BMP_OK, Some bm)) \<longrightarrow>
      HeaderSize (Header bm) = 40 \<and> CompressionType (Header bm) = 0 \<and>
      (BitsPerPixel (Header bm) = 8 \<or> BitsPerPixel (Header bm) = 24
         \<or> BitsPerPixel (Header bm) = 32) \<and>
      Width (Header bm) \<noteq> 0) \<and>
   (BMP_SetPixelRGB (Some bm) x y r g b = Returns (st, Some bm') \<longrightarrow> Header bm' = Header bm) \<and>
   (BMP_SetPixelIndex (Some bm) x y v = Returns (st, Some bm') \<longrightarrow> Header bm' = Header bm) \<and>
   (BMP_SetPaletteColor (Some bm) i r g b = Returns (st, Some bm') \<longrightarrow> Header bm' = Header bm)"
proof (intro conjI impI)
  assume c: "BMP_Create width height depth = (BMP_OK, Some bm)"
  note f = BMP_Create_fields [OF c]
  show "HeaderSize (Header bm) = 40" "CompressionType (Header bm) = 0"
    "Width (Header bm) \<noteq> 0" "Height (Header bm) \<noteq> 0"
    using f by simp_all
  show "BitsPerPixel (Header bm) = 8 \<or> BitsPerPixel (Header bm) = 24
         \<or> BitsPerPixel (Header bm) = 32"
    using f(3) by (simp only: f(6))
  show "unat (DataOffset (Header bm)) = 54 + (if BitsPerPixel (Header bm) = 8 then 1024 else 0)"
    using f(9) by (simp only: f(6))
  show "unat (ImageDataSize (Header bm))
        = (RowStride_spec (unat (Width (Header bm))) (unat (BitsPerPixel (Header bm)) div 8)
             * unat (Height (Header bm))) mod 2 ^ 32"
    using f(10) by (simp only: f(4) f(5) f(6))
next
  assume d: "BMP_ReadFile fopen_rb junk filename = Some (Returns (BMP_OK, Some bm))"
  note f = BMP_ReadFile_fields [OF d]
  show "HeaderSize (Header bm) = 40" "CompressionType (Header bm) = 0"
    "BitsPerPixel (Header bm) = 8 \<or> BitsPerPixel (Header bm) = 24
         \<or> BitsPerPixel (Header bm) = 32"
    "Width (Header bm) \<noteq> 0"
    by (rule f)+
next
  assume "BMP_SetPixelRGB (Some bm) x y r g b = Returns (st, Some bm')"
  then show "Header bm' = Header bm" by (rule setters_keep_header)
next
  assume "BMP_SetPixelIndex (Some bm) x y v = Returns (st, Some bm')"
  then show "Header bm' = Header bm" by (rule setters_keep_header)
next
  assume "BMP_SetPaletteColor (Some bm) i r g b = Returns (st, Some bm')"
  then show "Header bm' = Header bm" by (rule setters_keep_header)
qed

theorem header_invariants_witness:
  "HeaderSize (Header (the (snd (BMP_Create 2 2 24)))) = 40 \<and>
   Width (Header (the (snd (BMP_Create 2 2 24)))) \<noteq> 0 \<and>
   unat (ImageDataSize (Header (the (snd (BMP_Create 2 2 24))))) = 16 \<and>
   unat (DataOffset (Header (the (snd (BMP_Create 2 2 24))))) = 54 \<and>
   HeaderSize (sample_header 4 2 8 8) = 40 \<and> Width (sample_header 4 2 8 8) \<noteq> 0 \<and>
   BMP_SetPixelRGB (snd (BMP_Create 2 2 24)) 0 0 1 2 3
     = Returns (BMP_OK, Some ((the (snd (BMP_Create 2 2 24)))
         \<lparr>Data := (replicate 16 0)[10 := 1, 9 := 2, 8 := 3]\<rparr>)) \<and>
   Header ((the (snd (BMP_Create 2 2 24)))\<lparr>Data := (replicate 16 0)[10 := 1, 9 := 2, 8 := 3]\<rparr>)
     = Header (the (snd (BMP_Create 2 2 24)))"
proof -
  define bm where "bm = the (snd (BMP_Create 2 2 24))"
  define bm' where "bm' = bm\<lparr>Data := (replicate 16 0)[10 := 1, 9 := 2, 8 := 3]\<rparr>"
  define dec where "dec = \<lparr> Header = sample_header 4 2 8 8,
        Palette = Some (replicate 1024 (0 :: byte)), Data = [5, 6, 7, 8, 1, 2, 3, 4 :: byte] \<rparr>"
  have c: "BMP_Create 2 2 24 = (BMP_OK, Some bm)"
    by (simp add: bm_def BMP_Create_def Let_def)
  have h: "Width (Header bm) = 2" "Height (Header bm) = 2" "BitsPerPixel (Header bm) = 24"
    "ImageDataSize (Header bm) = 16" "Data bm = replicate 16 0"
    by (simp_all add: bm_def BMP_Create_def Let_def)
  have off: "pixel_offset (Header bm) 0 0 3 = 8"
    by (simp add: pixel_offset_def h)
  have set: "BMP_SetPixelRGB (Some bm) 0 0 1 2 3 = Returns (BMP_OK, Some bm')"
    by (simp add: BMP_SetPixelRGB_def h off store_def bm'_def)
  have d: "BMP_ReadFile (one_file (sample_header_bytes 4 2 8 8 @ replicate 1024 0
              @ [1, 2, 3, 4, 5, 6, 7, 8])) stale (Some ''a.bmp'') = Some (Returns (BMP_OK, Some dec))"
    using sample_decode_4x2 by (simp only: dec_def)
  have w1: "HeaderSize (Header bm) = 40 \<and> Width (Header bm) \<noteq> 0 \<and>
      unat (ImageDataSize (Header bm)) = 16 \<and> unat (DataOffset (Header bm)) = 54"
    using header_invariants [where width = 2 and height = 2 and depth = 24 and bm = bm] c h
    by (simp add: RowStride_spec_def)
  have w2: "HeaderSize (Header dec) = 40 \<and> Width (Header dec) \<noteq> 0"
    using header_invariants [where fopen_rb = "one_file (sample_header_bytes 4 2 8 8 @ replicate 1024 0
              @ [1, 2, 3, 4, 5, 6, 7, 8])" and junk = stale and filename = "Some ''a.bmp''"
              and bm = dec] d
    by simp
  have w3: "Header bm' = Header bm"
    using header_invariants [where bm = bm and x = 0 and y = 0 and r = 1 and g = 2 and b = 3
        and st = BMP_OK and bm' = bm'] set
    by simp
  have s: "snd (BMP_Create 2 2 24) = Some bm" using c by simp
  from w1 w2 w3 set show ?thesis
    unfolding s bm'_def by (simp add: dec_def bm_def [symmetric])
qed

text \<open>The claim as stated fails for \<^verbatim>\<open>BMP_ReadFile\<close>, which looks at the magic, the depth,
  the compression and the header size only: a depth-8 file whose header has height 0, data
  offset 54 and image data size 7 is decoded, and the bitmap returned carries these
  fields.\<close>

theorem decoded_header_unchecked_counterexample:
  "BMP_ReadFile (one_file (sample_header_bytes 1 0 8 7 @ replicate 1024 0)) stale (Some ''a.bmp'')
   = Some (Returns (BMP_OK, Some \<lparr> Header = sample_header 1 0 8 7,
        Palette = Some (replicate 1024 0), Data = replicate 7 0xAA \<rparr>)) \<and>
   Height (sample_header 1 0 8 7) = 0 \<and>
   BitsPerPixel (sample_header 1 0 8 7) = 8 \<and> DataOffset (sample_header 1 0 8 7) = 54 \<and>
   ImageDataSize (sample_header 1 0 8 7) = 7"
  using sample_decode_no_rows by (simp add: sample_header_def)

section \<open>BMP_WriteFile on a device that takes every byte\<close>

lemma Writeuint32_t_unbounded:
  "room f = None \<Longrightarrow>
   Writeuint32_t x f =
     (True, \<lparr> written = written f @ [ucast (drop_bit 0 (x AND 0x000000ff)),
                                       ucast (drop_bit 8 (x AND 0x0000ff00)),
                                       ucast (drop_bit 16 (x AND 0x00ff0000)),
                                       ucast (drop_bit 24 (x AND 0xff000000))],
              room = None \<rparr>)"
  by (simp add: Writeuint32_t_def fwrite_bytes_def accepts_def)

lemma Writeuint16_t_unbounded:
  "room f = None \<Longrightarrow>
   Writeuint16_t x f =
     (True, \<lparr> written = written f @ [ucast (drop_bit 0 (x AND 0x00ff)),
                                       ucast (drop_bit 8 (x AND 0xff00))],
              room = None \<rparr>)"
  by (simp add: Writeuint16_t_def fwrite_bytes_def accepts_def)

lemma encode_4x2_depth8:
  "BMP_WriteFile fresh_file (snd (BMP_Create 4 2 8)) (Some ''a.bmp'')
   = Some (Returns (BMP_IO_ERROR,
       Some \<lparr> written = [0x42, 0x4D, 0x3E, 0x04, 0, 0, 0, 0, 0, 0, 0x36, 0x04, 0, 0, 40, 0, 0, 0,
                           4, 0, 0, 0, 2, 0, 0, 0, 1, 0, 8, 0, 0, 0, 0, 0, 8, 0, 0, 0,
                           0, 0, 0, 0, 0, 0, 0, 0, 0, 0, 0, 0, 0, 0, 0, 0]
                          @ replicate 1024 0 @ replicate 4 0,
              room = None \<rparr>))"
proof -
  define bm where "bm = the (snd (BMP_Create 4 2 8))"
  have c: "snd (BMP_Create 4 2 8) = Some bm"
    by (simp add: bm_def BMP_Create_def Let_def)
  have h: "Header bm = \<lparr> Magic = 0x4D42, FileSize = 1086, Reserved1 = 0, Reserved2 = 0,
       DataOffset = 1078, HeaderSize = 40, Width = 4, Height = 2, Planes = 1,
       BitsPerPixel = 8, CompressionType = 0, ImageDataSize = 8,
       HPixelsPerMeter = 0, VPixelsPerMeter = 0, ColorsUsed = 0, ColorsRequired = 0 \<rparr>"
    "Palette bm = Some (replicate 1024 0)" "Data bm = replicate 8 0"
    by (simp_all add: bm_def BMP_Create_def Let_def BMP_PALETTE_SIZE_def)
  have wh: "WriteHeader (Some bm) \<lparr> written = [], room = None \<rparr>
     = (BMP_OK, \<lparr> written = [0x42, 0x4D, 0x3E, 0x04, 0, 0, 0, 0, 0, 0, 0x36, 0x04, 0, 0, 40, 0, 0, 0,
                           4, 0, 0, 0, 2, 0, 0, 0, 1, 0, 8, 0, 0, 0, 0, 0, 8, 0, 0, 0,
                           0, 0, 0, 0, 0, 0, 0, 0, 0, 0, 0, 0, 0, 0, 0, 0], room = None \<rparr>)"
    by (simp add: WriteHeader_def h or_io_error_def Writeuint32_t_unbounded Writeuint16_t_unbounded)
  have pal: "fwrite_buf (replicate 1024 0) 0 BMP_PALETTE_SIZE f
      = Returns (BMP_PALETTE_SIZE, \<lparr> written = written f @ replicate 1024 0, room = None \<rparr>)"
    if "room f = None" for f
    using that by (simp add: fwrite_buf_def fwrite_bytes_def accepts_def BMP_PALETTE_SIZE_def)
  have rows: "write_rows 4 8 4 (replicate 8 0) f
      = Some (Returns (BMP_IO_ERROR, \<lparr> written = written f @ replicate 4 0, room = None \<rparr>))"
    if "room f = None" for f
    using that
    by (subst write_rows.simps)
       (simp add: fwrite_buf_def fwrite_bytes_def accepts_def)
  show ?thesis
    by (simp add: BMP_WriteFile_def fresh_file_def c wh h pal rows)
qed

text \<open>Claim C3 says that \<^verbatim>\<open>BMP_WriteFile\<close> writes the header, the palette if there is one
  and every row padded to the row stride, and reports \<^verbatim>\<open>BMP_IO_ERROR\<close> exactly when a write
  fails. The code, run on the blank 2 by 2 bitmap of depth 24 and a device that takes every
  byte: after the 54 bytes of the header and the 2 bytes that \<^verbatim>\<open>fwrite\<close> takes for the first
  row, the count 2 returned by \<^verbatim>\<open>fwrite\<close> is compared with \<open>ImageDataSize = 16\<close>, and the
  function stops with \<^verbatim>\<open>BMP_IO_ERROR\<close>.\<close>

theorem encode_stops_after_first_row:
  "BMP_WriteFile fresh_file (snd (BMP_Create 2 2 24)) (Some ''a.bmp'')
   = Some (Returns (BMP_IO_ERROR,
       Some \<lparr> written = [0x42, 0x4D, 70, 0, 0, 0, 0, 0, 0, 0, 54, 0, 0, 0, 40, 0, 0, 0,
                           2, 0, 0, 0, 2, 0, 0, 0, 1, 0, 24, 0, 0, 0, 0, 0, 16, 0, 0, 0,
                           0, 0, 0, 0, 0, 0, 0, 0, 0, 0, 0, 0, 0, 0, 0, 0] @ [0, 0],
              room = None \<rparr>))"
proof -
  define bm where "bm = the (snd (BMP_Create 2 2 24))"
  have c: "snd (BMP_Create 2 2 24) = Some bm"
    by (simp add: bm_def BMP_Create_def Let_def)
  have h: "Header bm = \<lparr> Magic = 0x4D42, FileSize = 70, Reserved1 = 0, Reserved2 = 0,
       DataOffset = 54, HeaderSize = 40, Width = 2, Height = 2, Planes = 1,
       BitsPerPixel = 24, CompressionType = 0, ImageDataSize = 16,
       HPixelsPerMeter = 0, VPixelsPerMeter = 0, ColorsUsed = 0, ColorsRequired = 0 \<rparr>"
    "Palette bm = None" "Data bm = replicate 16 0"
    by (simp_all add: bm_def BMP_Create_def Let_def)
  have wh: "WriteHeader (Some bm) \<lparr> written = [], room = None \<rparr>
     = (BMP_OK, \<lparr> written = [0x42, 0x4D, 70, 0, 0, 0, 0, 0, 0, 0, 54, 0, 0, 0, 40, 0, 0, 0,
                           2, 0, 0, 0, 2, 0, 0, 0, 1, 0, 24, 0, 0, 0, 0, 0, 16, 0, 0, 0,
                           0, 0, 0, 0, 0, 0, 0, 0, 0, 0, 0, 0, 0, 0, 0, 0], room = None \<rparr>)"
    by (simp add: WriteHeader_def h or_io_error_def Writeuint32_t_unbounded Writeuint16_t_unbounded)
  have r2: "[0, 0] = replicate 2 (0 :: byte)"
    by (simp add: eval_nat_numeral)
  have rows: "write_rows 2 16 2 (replicate 16 0) f
      = Some (Returns (BMP_IO_ERROR, \<lparr> written = written f @ replicate 2 0, room = None \<rparr>))"
    if "room f = None" for f
    using that
    by (subst write_rows.simps)
       (simp add: fwrite_buf_def fwrite_bytes_def accepts_def)
  show ?thesis
    by (simp add: BMP_WriteFile_def fresh_file_def c wh h rows r2)
qed

text \<open>Claim C1 says that decoding the bytes produced by encoding a bitmap gives the bitmap
  back. The code, run on the blank 4 by 2 bitmap of depth 8: \<^verbatim>\<open>BMP_WriteFile\<close> stops with
  \<^verbatim>\<open>BMP_IO_ERROR\<close> after the header, the palette and the 4 bytes of one row, and
  \<^verbatim>\<open>BMP_ReadFile\<close> of the bytes written reports \<^verbatim>\<open>BMP_FILE_INVALID\<close> and returns no
  bitmap.\<close>

theorem round_trip_fails_4x2_depth8:
  "BMP_WriteFile fresh_file (snd (BMP_Create 4 2 8)) (Some ''a.bmp'')
   = Some (Returns (BMP_IO_ERROR,
       Some \<lparr> written = [0x42, 0x4D, 0x3E, 0x04, 0, 0, 0, 0, 0, 0, 0x36, 0x04, 0, 0, 40, 0, 0, 0,
                           4, 0, 0, 0, 2, 0, 0, 0, 1, 0, 8, 0, 0, 0, 0, 0, 8, 0, 0, 0,
                           0, 0, 0, 0, 0, 0, 0, 0, 0, 0, 0, 0, 0, 0, 0, 0]
                          @ replicate 1024 0 @ replicate 4 0,
              room = None \<rparr>)) \<and>
   BMP_ReadFile
     (one_file ([0x42, 0x4D, 0x3E, 0x04, 0, 0, 0, 0, 0, 0, 0x36, 0x04, 0, 0, 40, 0, 0, 0,
                 4, 0, 0, 0, 2, 0, 0, 0, 1, 0, 8, 0, 0, 0, 0, 0, 8, 0, 0, 0,
                 0, 0, 0, 0, 0, 0, 0, 0, 0, 0, 0, 0, 0, 0, 0, 0]
                @ replicate 1024 0 @ replicate 4 0))
     stale (Some ''a.bmp'')
   = Some (Returns (BMP_FILE_INVALID, None))"
proof -
  define h where "h = \<lparr> Magic = 0x4D42, FileSize = 1086, Reserved1 = 0, Reserved2 = 0,
       DataOffset = 1078, HeaderSize = 40, Width = 4, Height = 2, Planes = 1,
       BitsPerPixel = 8, CompressionType = 0, ImageDataSize = 8,
       HPixelsPerMeter = 0, VPixelsPerMeter = 0, ColorsUsed = 0, ColorsRequired = 0 \<rparr>"
  define rest where "rest = replicate 1024 (0 :: byte) @ replicate 4 0"
  define e where "e = [0x42, 0x4D, 0x3E, 0x04, 0, 0, 0, 0, 0, 0, 0x36, 0x04, 0, 0, 40, 0, 0, 0,
                 4, 0, 0, 0, 2, 0, 0, 0, 1, 0, 8, 0, 0, 0, 0, 0, 8, 0, 0, 0,
                 0, 0, 0, 0, 0, 0, 0, 0, 0, 0, 0, 0, 0, 0, 0, 0 :: byte] @ rest"
  have rh: "ReadHeader e = Some (h, rest)"
    by (simp add: e_def h_def ReadHeader_def Readuint16_t_def Readuint32_t_def fread_bytes_def)
  have "BMP_ReadFile (one_file e) stale (Some ''a.bmp'') = Some (Returns (BMP_FILE_INVALID, None))"
  proof (rule decode_rows_truncated [where fopen_rb = "one_file e" and f = e and h = h
        and ?f1.0 = rest and payload = "drop BMP_PALETTE_SIZE rest"])
    show "one_file e ''a.bmp'' = Some e" by (simp add: one_file_def)
    show "ReadHeader e = Some (h, rest)" by (rule rh)
    show "length (drop BMP_PALETTE_SIZE rest)
        < (unat (Height h) - 1) * (unat (Width h) + row_padding (Width h)) + unat (Width h)"
      by (simp add: h_def rest_def BMP_PALETTE_SIZE_def row_padding_def)
  qed (simp_all add: h_def rest_def BMP_PALETTE_SIZE_def)
  then show ?thesis
    using encode_4x2_depth8 by (simp add: e_def rest_def)
qed

text \<open>So the bytes that encoding leaves do not decode to the bitmap that was encoded.\<close>

theorem round_trip_fails_4x2_depth8_witness:
  "BMP_ReadFile
     (one_file ([0x42, 0x4D, 0x3E, 0x04, 0, 0, 0, 0, 0, 0, 0x36, 0x04, 0, 0, 40, 0, 0, 0,
                 4, 0, 0, 0, 2, 0, 0, 0, 1, 0, 8, 0, 0, 0, 0, 0, 8, 0, 0, 0,
                 0, 0, 0, 0, 0, 0, 0, 0, 0, 0, 0, 0, 0, 0, 0, 0]
                @ replicate 1024 0 @ replicate 4 0))
     stale (Some ''a.bmp'')
   \<noteq> Some (Returns (BMP_OK, snd (BMP_Create 4 2 8)))"
  using round_trip_fails_4x2_depth8 by simp

end
